theory Spec2Isabelle
  imports Main "HOL-Library.Sublist"
begin

section \<open>Python text primitives\<close>

text \<open>
  Document text, notes and names are Python \<^verbatim>\<open>str\<close> values. They are modelled as
  \<^typ>\<open>string\<close>, one \<^typ>\<open>char\<close> per code point below 256. On that range the
  character classes of \<^verbatim>\<open>re\<close> and the methods \<^verbatim>\<open>str.lower\<close> and
  \<^verbatim>\<open>str.strip\<close> are as defined here: \<^verbatim>\<open>\d\<close> is the ten ASCII digits,
  \<^verbatim>\<open>\s\<close> is the whitespace of \<^verbatim>\<open>str.isspace\<close>, and lower-casing moves
  \<^verbatim>\<open>A-Z\<close> and the Latin-1 capitals by 32.
\<close>

definition is_digit :: "char \<Rightarrow> bool" where
  "is_digit c = (c \<in> set ''0123456789'')"

definition is_space :: "char \<Rightarrow> bool" where
  "is_space c =
     (c \<in> set [CHR 0x09, CHR 0x0A, CHR 0x0B, CHR 0x0C, CHR 0x0D, CHR 0x1C, CHR 0x1D,
                CHR 0x1E, CHR 0x1F, CHR 0x20, CHR 0x85, CHR 0xA0])"

definition is_newline :: "char \<Rightarrow> bool" where
  "is_newline c = (c = CHR 0x0A)"

definition lower_char :: "char \<Rightarrow> char" where
  "lower_char c =
     (let n = (of_char c :: nat)
      in if (65 \<le> n \<and> n \<le> 90) \<or> (192 \<le> n \<and> n \<le> 222 \<and> n \<noteq> 215)
         then char_of (n + 32) else c)"

text \<open>\<^verbatim>\<open>s.lower()\<close>\<close>

definition str_lower :: "string \<Rightarrow> string" where
  "str_lower s = map lower_char s"

text \<open>\<^verbatim>\<open>sub in s\<close>: some suffix of \<open>s\<close> starts with \<open>sub\<close>.\<close>

fun contains :: "string \<Rightarrow> string \<Rightarrow> bool" where
  "contains sub [] = (sub = [])"
| "contains sub (c # cs) = (prefix sub (c # cs) \<or> contains sub cs)"

text \<open>\<^verbatim>\<open>s.endswith(suf)\<close>\<close>

definition endswith :: "string \<Rightarrow> string \<Rightarrow> bool" where
  "endswith s suf = (length suf \<le> length s \<and> drop (length s - length suf) s = suf)"

text \<open>\<^verbatim>\<open>s.strip()\<close>\<close>

definition str_strip :: "string \<Rightarrow> string" where
  "str_strip s = rev (dropWhile is_space (rev (dropWhile is_space s)))"

text \<open>\<^verbatim>\<open>s.split('/')[-1]\<close>: what follows the last slash.\<close>

definition last_segment :: "string \<Rightarrow> string" where
  "last_segment s = rev (takeWhile (\<lambda>c. c \<noteq> CHR ''/'') (rev s))"

text \<open>\<^verbatim>\<open>str(n)\<close> for a non-negative integer, as the f-strings print a status code.\<close>

fun string_of_nat :: "nat \<Rightarrow> string" where
  "string_of_nat n =
     (if n < 10 then [char_of (48 + n)]
      else string_of_nat (n div 10) @ [char_of (48 + n mod 10)])"

text \<open>Truthiness of an optional string: \<^verbatim>\<open>None\<close> and \<^verbatim>\<open>''\<close> are falsy.\<close>

fun truthy :: "string option \<Rightarrow> bool" where
  "truthy None = False"
| "truthy (Some s) = (s \<noteq> [])"

text \<open>\<^verbatim>\<open>a or b\<close> on optional strings.\<close>

definition py_or :: "string option \<Rightarrow> string option \<Rightarrow> string option" where
  "py_or a b = (if truthy a then a else b)"

text \<open>\<^verbatim>\<open>os.path.join(a, b)\<close> on POSIX.\<close>

definition path_join :: "string \<Rightarrow> string \<Rightarrow> string" where
  "path_join a b =
     (if prefix ''/'' b then b
      else if a = [] \<or> endswith a ''/'' then a @ b
      else a @ ''/'' @ b)"

section \<open>Regular expressions of the source\<close>

text \<open>
  \<^verbatim>\<open>re.search\<close> tries the pattern at every position from the left and returns the
  first success. A pattern is a function from the text at a position to its result there.
\<close>

fun re_search :: "(string \<Rightarrow> 'a option) \<Rightarrow> string \<Rightarrow> 'a option" where
  "re_search m [] = m []"
| "re_search m (c # cs) = (case m (c # cs) of Some r \<Rightarrow> Some r | None \<Rightarrow> re_search m cs)"

text \<open>A literal under \<^verbatim>\<open>re.IGNORECASE\<close>; the result is the text after it.\<close>

fun lit_ci :: "string \<Rightarrow> string \<Rightarrow> string option" where
  "lit_ci [] s = Some s"
| "lit_ci (p # ps) [] = None"
| "lit_ci (p # ps) (c # cs) = (if lower_char c = lower_char p then lit_ci ps cs else None)"

text \<open>
  A greedy repetition that took \<open>n\<close> characters of \<open>s\<close>, followed by the rest \<open>k\<close> of
  the pattern: the engine tries \<open>k\<close> after \<open>n\<close> characters, then gives characters back
  one at a time.
\<close>

fun backtrack :: "(string \<Rightarrow> 'a option) \<Rightarrow> string \<Rightarrow> nat \<Rightarrow> 'a option" where
  "backtrack k s 0 = k s"
| "backtrack k s (Suc n) =
     (case k (drop (Suc n) s) of Some r \<Rightarrow> Some r | None \<Rightarrow> backtrack k s n)"

text \<open>The class \<^verbatim>\<open>[:\s]\<close>.\<close>

definition is_sep :: "char \<Rightarrow> bool" where
  "is_sep c = (c = CHR '':'' \<or> is_space c)"

text \<open>
  \<^verbatim>\<open>[:\s]*(\d+)\<close> at the end of a pattern. The two classes are disjoint, so giving
  back a separator never helps: the group is the digit run after all the separators.
\<close>

definition digits_after_sep :: "string \<Rightarrow> string option" where
  "digits_after_sep s =
     (let ds = takeWhile is_digit (dropWhile is_sep s)
      in if ds = [] then None else Some ds)"

text \<open>\<^verbatim>\<open>(\d{n})\<close>\<close>

definition digits_exactly :: "nat \<Rightarrow> string \<Rightarrow> string option" where
  "digits_exactly n s =
     (if n \<le> length s \<and> list_all is_digit (take n s) then Some (take n s) else None)"

text \<open>\<^verbatim>\<open>([^\n]+)\<close> at the end of a pattern.\<close>

definition line_run :: "string \<Rightarrow> string option" where
  "line_run s =
     (let g = takeWhile (\<lambda>c. \<not> is_newline c) s in if g = [] then None else Some g)"

text \<open>\<^verbatim>\<open>Application Number[:\s]*(\d+)\<close>, ignoring case\<close>

definition re_application_number :: "string \<Rightarrow> string option" where
  "re_application_number s =
     (case lit_ci ''Application Number'' s of None \<Rightarrow> None | Some r \<Rightarrow> digits_after_sep r)"

text \<open>\<^verbatim>\<open>Billed Entity Name[:\s]*([^\n]+)\<close>, ignoring case\<close>

definition re_billed_entity_name :: "string \<Rightarrow> string option" where
  "re_billed_entity_name s =
     (case lit_ci ''Billed Entity Name'' s of
        None \<Rightarrow> None
      | Some r \<Rightarrow> backtrack line_run r (length (takeWhile is_sep r)))"

text \<open>\<^verbatim>\<open>Establishing FCC Form 470[:\s]*(\d+)\<close>, ignoring case\<close>

definition re_establishing :: "string \<Rightarrow> string option" where
  "re_establishing s =
     (case lit_ci ''Establishing FCC Form 470'' s of
        None \<Rightarrow> None
      | Some r \<Rightarrow> digits_after_sep r)"

text \<open>\<^verbatim>\<open>Form 470[:\s]*(\d+)\<close>, the part of the looser pattern after \<^verbatim>\<open>.*\<close>\<close>

definition re_form470_digits :: "string \<Rightarrow> string option" where
  "re_form470_digits s =
     (case lit_ci ''Form 470'' s of None \<Rightarrow> None | Some r \<Rightarrow> digits_after_sep r)"

text \<open>
  \<^verbatim>\<open>Establishing.*Form 470[:\s]*(\d+)\<close>, ignoring case; the dot does not match a
  newline.
\<close>

definition re_establishing_loose :: "string \<Rightarrow> string option" where
  "re_establishing_loose s =
     (case lit_ci ''Establishing'' s of
        None \<Rightarrow> None
      | Some r \<Rightarrow>
          backtrack re_form470_digits r (length (takeWhile (\<lambda>c. \<not> is_newline c) r)))"

text \<open>
  \<^verbatim>\<open>http[s]?://[^\s]+\.pdf\<close>, ignoring case. The result is the text after the match.
\<close>

definition re_url_tail :: "string \<Rightarrow> string option" where
  "re_url_tail s =
     (case lit_ci ''://'' s of
        None \<Rightarrow> None
      | Some [] \<Rightarrow> None
      | Some (c # u) \<Rightarrow>
          if is_space c then None
          else backtrack (lit_ci ''.pdf'') u (length (takeWhile (\<lambda>c. \<not> is_space c) u)))"

definition re_pdf_url :: "string \<Rightarrow> string option" where
  "re_pdf_url s =
     (case lit_ci ''http'' s of
        None \<Rightarrow> None
      | Some r \<Rightarrow>
          (case (case r of
                   c # t \<Rightarrow> if lower_char c = CHR ''s'' then re_url_tail t else None
                 | [] \<Rightarrow> None) of
             Some rest \<Rightarrow> Some rest
           | None \<Rightarrow> re_url_tail r))"

text \<open>The matched text itself: \<open>s\<close> without what follows the match.\<close>

definition matched_url :: "string \<Rightarrow> string option" where
  "matched_url s =
     (case re_pdf_url s of
        None \<Rightarrow> None
      | Some rest \<Rightarrow> Some (take (length s - length rest) s))"

text \<open>\<^verbatim>\<open>re.findall(..., notes, re.IGNORECASE)\<close>, first element if any\<close>

definition first_pdf_url :: "string \<Rightarrow> string option" where
  "first_pdf_url notes = re_search matched_url notes"

section \<open>Field extraction\<close>

text \<open>A dictionary with string values, in insertion order.\<close>

type_synonym pydict = "(string \<times> string) list"

text \<open>\<^verbatim>\<open>d.get(k)\<close>\<close>

definition dict_get :: "pydict \<Rightarrow> string \<Rightarrow> string option" where
  "dict_get d k = map_of d k"

text \<open>\<^verbatim>\<open>d.get(k, default)\<close>\<close>

definition dict_get_default :: "pydict \<Rightarrow> string \<Rightarrow> string \<Rightarrow> string" where
  "dict_get_default d k dflt = (case map_of d k of None \<Rightarrow> dflt | Some v \<Rightarrow> v)"

text \<open>A call of an external library or service either raises or returns.\<close>

datatype 'a attempt = Raises string | Returns 'a

text \<open>The form type of \<^verbatim>\<open>extract_form_info\<close>, lines 299 to 308.\<close>

definition form_type_of :: "string \<Rightarrow> string" where
  "form_type_of text =
     (if contains ''form 471'' (str_lower text) \<or> contains ''471'' (str_lower text) then ''471''
      else if contains ''form 470'' (str_lower text) \<or> contains ''470'' (str_lower text)
      then ''470''
      else ''unknown'')"

text \<open>The application number, lines 310 to 323; \<open>None\<close> is the early return.\<close>

definition application_number_of :: "string \<Rightarrow> string option" where
  "application_number_of text =
     (case re_search re_application_number text of
        Some g \<Rightarrow> Some g
      | None \<Rightarrow> re_search (digits_exactly 9) text)"

text \<open>The billed entity name, lines 325 to 332.\<close>

definition billed_entity_name_of :: "string \<Rightarrow> string" where
  "billed_entity_name_of text =
     (case re_search re_billed_entity_name text of
        Some g \<Rightarrow> str_strip g
      | None \<Rightarrow> ''Unknown'')"

text \<open>The establishing Form 470 number of a Form 471, lines 337 to 355.\<close>

definition establishing_form470_number_of :: "string \<Rightarrow> string option" where
  "establishing_form470_number_of text =
     (case re_search re_establishing text of
        Some g \<Rightarrow> Some g
      | None \<Rightarrow>
          (case re_search re_establishing_loose text of
             Some g \<Rightarrow> Some g
           | None \<Rightarrow> re_search (digits_exactly 15) text))"

text \<open>The body of \<^verbatim>\<open>extract_form_info\<close> once the text of the pages is known.\<close>

definition form_info_of_text :: "string \<Rightarrow> pydict" where
  "form_info_of_text text =
     (let form_type = form_type_of text
      in case application_number_of text of
           None \<Rightarrow> []
         | Some application_number \<Rightarrow>
             (let billed_entity_name = billed_entity_name_of text;
                  establishing_form470_number =
                    (if form_type = ''471'' then establishing_form470_number_of text else None)
              in [(''application_number'', application_number),
                  (''form_type'', form_type),
                  (''billed_entity_name'', billed_entity_name)] @
                 (case establishing_form470_number of
                    None \<Rightarrow> []
                  | Some e \<Rightarrow> if e \<noteq> [] then [(''establishing_form470_number'', e)] else [])))"

text \<open>
  The text of a document: every page's \<^verbatim>\<open>extract_text() or ""\<close>, concatenated.
\<close>

definition pages_text :: "string option list \<Rightarrow> string" where
  "pages_text pages = concat (map (\<lambda>p. case p of None \<Rightarrow> [] | Some t \<Rightarrow> t) pages)"

text \<open>
  \<^verbatim>\<open>extract_form_info(pdf_path)\<close>. The file system maps a path to the bytes stored
  there; \<open>pdf_open\<close> is the PDF library on those bytes, which raises or returns the text
  of each page (\<open>None\<close> for a page without text). Every exception ends in the empty
  dictionary.
\<close>

definition extract_form_info ::
  "(string \<Rightarrow> string option list attempt) \<Rightarrow> (string \<rightharpoonup> string) \<Rightarrow> string \<Rightarrow> pydict" where
  "extract_form_info pdf_open files pdf_path =
     (case files pdf_path of
        None \<Rightarrow> []
      | Some bytes \<Rightarrow>
          (case pdf_open bytes of
             Raises e \<Rightarrow> []
           | Returns pages \<Rightarrow> form_info_of_text (pages_text pages)))"

section \<open>Registry matching\<close>

text \<open>Values of the result dictionary of \<^verbatim>\<open>search_form470\<close>.\<close>

datatype pyval = PNone | PBool bool | PStr string | PDict pydict

type_synonym result = "(string \<times> pyval) list"

fun pyval_truthy :: "pyval option \<Rightarrow> bool" where
  "pyval_truthy None = False"
| "pyval_truthy (Some PNone) = False"
| "pyval_truthy (Some (PBool b)) = b"
| "pyval_truthy (Some (PStr s)) = (s \<noteq> [])"
| "pyval_truthy (Some (PDict d)) = (d \<noteq> [])"

fun pyval_of :: "string option \<Rightarrow> pyval" where
  "pyval_of None = PNone"
| "pyval_of (Some s) = PStr s"

text \<open>
  An HTTP response: its status, its body, and what \<^verbatim>\<open>response.json()\<close> gives, which
  raises on a body that is not JSON. The registry answers with an array of records.
\<close>

record response =
  status_code :: nat
  content :: string
  json :: "pydict list attempt"

text \<open>A call \<^verbatim>\<open>requests.get(url, params=params)\<close>.\<close>

type_synonym request = "string \<times> pydict"

definition usac_url :: string where
  "usac_url = ''https://opendata.usac.org/resource/jt8s-3q52.json''"

definition usac_request :: "string \<Rightarrow> request" where
  "usac_request search_number =
     (usac_url, [(''$where'', ''application_number='' @ [CHR 0x27] @ search_number @ [CHR 0x27])])"

text \<open>The search number, lines 383 to 391.\<close>

definition search_number_of :: "pydict \<Rightarrow> string option" where
  "search_number_of form_info =
     (if dict_get form_info ''form_type'' = Some ''471''
         \<and> truthy (dict_get form_info ''establishing_form470_number'')
      then dict_get form_info ''establishing_form470_number''
      else dict_get form_info ''application_number'')"

text \<open>The result of the \<^verbatim>\<open>except\<close> branch, lines 449 to 455.\<close>

definition search_exception :: "pydict \<Rightarrow> string \<Rightarrow> result" where
  "search_exception form_info e =
     [(''found'', PBool False),
      (''search_number'',
         pyval_of (py_or (dict_get form_info ''establishing_form470_number'')
                         (dict_get form_info ''application_number''))),
      (''error'', PStr e)]"

text \<open>
  \<^verbatim>\<open>search_form470(form_info)\<close>: the result dictionary and the requests sent to the
  registry, in order.
\<close>

definition search_form470 ::
  "(request \<Rightarrow> response attempt) \<Rightarrow> pydict \<Rightarrow> result \<times> request list" where
  "search_form470 requests_get form_info =
     (case search_number_of form_info of
        None \<Rightarrow> ([(''found'', PBool False), (''error'', PStr ''No search number found'')], [])
      | Some search_number \<Rightarrow>
          if search_number = []
          then ([(''found'', PBool False), (''error'', PStr ''No search number found'')], [])
          else
            (case requests_get (usac_request search_number) of
               Raises e \<Rightarrow> (search_exception form_info e, [usac_request search_number])
             | Returns response \<Rightarrow>
                 if status_code response = 200
                 then
                   (case json response of
                      Raises e \<Rightarrow> (search_exception form_info e, [usac_request search_number])
                    | Returns [] \<Rightarrow>
                        ([(''found'', PBool False), (''search_number'', PStr search_number)],
                         [usac_request search_number])
                    | Returns (form470_record # others) \<Rightarrow>
                        (let form470_url = dict_get_default form470_record ''form_pdf'' []
                         in if form470_url \<noteq> []
                            then ([(''found'', PBool True),
                                   (''form470_url'', PStr form470_url),
                                   (''search_number'', PStr search_number),
                                   (''record'', PDict form470_record)],
                                  [usac_request search_number])
                            else ([(''found'', PBool False),
                                   (''search_number'', PStr search_number),
                                   (''error'', PStr ''No URL in record'')],
                                  [usac_request search_number])))
                 else ([(''found'', PBool False),
                        (''search_number'', PStr search_number),
                        (''error'', PStr (''API error: '' @ string_of_nat (status_code response)))],
                       [usac_request search_number])))"

section \<open>The task store and the other collaborators\<close>

record attachment =
  att_name :: string
  att_download_url :: "string option"

text \<open>
  A task as the store returns it. \<open>tk_sections\<close> holds, for each membership in order,
  the name of its section (empty when the store gives none).
\<close>

record task =
  tk_gid :: string
  tk_name :: string
  tk_notes :: string
  tk_attachments :: "attachment list"
  tk_sections :: "string list"

record store_section =
  sec_gid :: string
  sec_name :: string

text \<open>The child task of \<^verbatim>\<open>create_manual_review_subtask\<close>.\<close>

record subtask =
  sub_name :: string
  sub_notes :: string
  sub_parent :: string
  sub_workspace :: string

text \<open>
  The comments the operations add. Each stands for the message of the source with the
  reason, or the URL, in its place.
\<close>

datatype comment =
    ProcessingComment
  | ManualFollowupComment string
  | IssuesComment string
  | CompletedComment "pyval option"

text \<open>The calls that changed the store.\<close>

datatype store_call =
    AddTask string string
  | AddComment string comment
  | UpdateCompleted string
  | CreateTask subtask

text \<open>
  Everything outside the program: the task store (reads that raise or return, writes that
  may raise), the HTTP client, the PDF library, the environment variable of the download
  directory and whether a file can be written.
\<close>

record world =
  tasks_find_by_id :: "string \<Rightarrow> task attempt"
  tasks_find_by_project :: "task list attempt"
  sections_find_by_project :: "store_section list attempt"
  project_workspace :: "string option attempt"
  add_task_raises :: "string \<Rightarrow> string \<Rightarrow> bool"
  add_comment_raises :: "string \<Rightarrow> bool"
  update_raises :: "string \<Rightarrow> bool"
  create_raises :: "subtask \<Rightarrow> bool"
  requests_get :: "request \<Rightarrow> response attempt"
  pdf_open :: "string \<Rightarrow> string option list attempt"
  temp_download_dir :: "string option"
  write_raises :: "string \<Rightarrow> bool"

type_synonym files = "string \<rightharpoonup> string"

section \<open>Task store operations\<close>

text \<open>\<^verbatim>\<open>get_qa_tasks()\<close>\<close>

definition get_qa_tasks :: "world \<Rightarrow> task list" where
  "get_qa_tasks w =
     (case tasks_find_by_project w of
        Raises e \<Rightarrow> []
      | Returns tasks \<Rightarrow>
          filter (\<lambda>t. list_ex (\<lambda>section_name. str_lower section_name = ''qa'') (tk_sections t))
            tasks)"

definition is_processing_section :: "store_section \<Rightarrow> bool" where
  "is_processing_section s =
     (contains ''qa'' (str_lower (sec_name s))
      \<and> contains ''processing'' (str_lower (sec_name s)))"

definition is_manual_section :: "store_section \<Rightarrow> bool" where
  "is_manual_section s =
     (contains ''qa'' (str_lower (sec_name s))
      \<and> contains ''manual follow-up'' (str_lower (sec_name s)))"

definition is_issues_section :: "store_section \<Rightarrow> bool" where
  "is_issues_section s =
     (contains ''qa'' (str_lower (sec_name s))
      \<and> contains ''issues'' (str_lower (sec_name s)))"

text \<open>\<^verbatim>\<open>move_task_to_processing(task_id)\<close>: what it returns and its calls.\<close>

definition move_task_to_processing :: "world \<Rightarrow> string \<Rightarrow> bool \<times> store_call list" where
  "move_task_to_processing w task_id =
     (case sections_find_by_project w of
        Raises e \<Rightarrow> (False, [])
      | Returns sections \<Rightarrow>
          (case find is_processing_section sections of
             None \<Rightarrow> (False, [])
           | Some processing_section \<Rightarrow>
               if add_task_raises w (sec_gid processing_section) task_id
               then (if add_comment_raises w task_id then (False, [])
                     else (True, [AddComment task_id ProcessingComment]))
               else (True, [AddTask (sec_gid processing_section) task_id])))"

text \<open>The move and the comment shared by the two operations below.\<close>

definition move_and_comment ::
  "world \<Rightarrow> store_section \<Rightarrow> string \<Rightarrow> comment \<Rightarrow> bool \<times> store_call list" where
  "move_and_comment w target task_id c =
     (let moved = (if add_task_raises w (sec_gid target) task_id then []
                   else [AddTask (sec_gid target) task_id])
      in if add_comment_raises w task_id then (False, moved)
         else (True, moved @ [AddComment task_id c]))"

text \<open>\<^verbatim>\<open>move_task_to_manual_followup(task_id, reason)\<close>\<close>

definition move_task_to_manual_followup ::
  "world \<Rightarrow> string \<Rightarrow> string \<Rightarrow> bool \<times> store_call list" where
  "move_task_to_manual_followup w task_id reason =
     (case sections_find_by_project w of
        Raises e \<Rightarrow> (False, [])
      | Returns sections \<Rightarrow>
          (case find is_manual_section sections of
             None \<Rightarrow> (False, [])
           | Some manual_section \<Rightarrow>
               move_and_comment w manual_section task_id (ManualFollowupComment reason)))"

text \<open>\<^verbatim>\<open>move_task_to_issues(task_id, issue_reason)\<close>\<close>

definition move_task_to_issues ::
  "world \<Rightarrow> string \<Rightarrow> string \<Rightarrow> bool \<times> store_call list" where
  "move_task_to_issues w task_id issue_reason =
     (case sections_find_by_project w of
        Raises e \<Rightarrow> (False, [])
      | Returns sections \<Rightarrow>
          (case find is_issues_section sections of
             None \<Rightarrow> (False, [])
           | Some issues_section \<Rightarrow>
               move_and_comment w issues_section task_id (IssuesComment issue_reason)))"

text \<open>\<^verbatim>\<open>mark_task_complete(task_id, form470_url)\<close>\<close>

definition mark_task_complete ::
  "world \<Rightarrow> string \<Rightarrow> pyval option \<Rightarrow> bool \<times> store_call list" where
  "mark_task_complete w task_id form470_url =
     (if update_raises w task_id then (False, [])
      else if add_comment_raises w task_id then (False, [UpdateCompleted task_id])
      else (True, [UpdateCompleted task_id, AddComment task_id (CompletedComment form470_url)]))"

text \<open>The name and the notes of the child task, lines 502 to 519.\<close>

definition subtask_name :: "pydict \<Rightarrow> string" where
  "subtask_name form_info =
     ''Manual Review: Find Form 470 for ''
       @ dict_get_default form_info ''application_number'' ''Unknown''"

definition subtask_notes :: "pydict \<Rightarrow> string" where
  "subtask_notes form_info =
     ''This sub-task was created automatically because no Form 470 was found for Form 471.''
     @ ''\<newline>\<newline>Form 471 Application Number: ''
     @ dict_get_default form_info ''application_number'' ''Unknown''
     @ ''\<newline>Form Type: '' @ dict_get_default form_info ''form_type'' ''Unknown''
     @ ''\<newline>Billed Entity: '' @ dict_get_default form_info ''billed_entity_name'' ''Unknown''
     @ ''\<newline>\<newline>Please manually search for the corresponding Form 470 and update ''
     @ ''this sub-task with the results.''
     @ ''\<newline>\<newline>Expected actions:''
     @ ''\<newline>1. Search USAC database for Form 470''
     @ ''\<newline>2. Verify the Form 470 matches the Form 471''
     @ ''\<newline>3. Update this sub-task with findings''
     @ ''\<newline>4. Mark parent task as complete if Form 470 is found''"

text \<open>\<^verbatim>\<open>create_manual_review_subtask(task_id, form_info)\<close>\<close>

definition create_manual_review_subtask ::
  "world \<Rightarrow> string \<Rightarrow> pydict \<Rightarrow> bool \<times> store_call list" where
  "create_manual_review_subtask w task_id form_info =
     (case tasks_find_by_id w task_id of
        Raises e \<Rightarrow> (False, [])
      | Returns parent_task \<Rightarrow>
          (case project_workspace w of
             Raises e \<Rightarrow> (False, [])
           | Returns None \<Rightarrow> (False, [])
           | Returns (Some workspace_gid) \<Rightarrow>
               if workspace_gid = [] then (False, [])
               else
                 (let subtask_data =
                        \<lparr>sub_name = subtask_name form_info,
                         sub_notes = subtask_notes form_info,
                         sub_parent = task_id,
                         sub_workspace = workspace_gid\<rparr>
                  in if create_raises w subtask_data then (False, [])
                     else (True, [CreateTask subtask_data]))))"

section \<open>Document location\<close>

text \<open>
  The download shared by the attachment branch and the notes branch, lines 224 to 240 and
  254 to 273: fetch the URL, and on status 200 write the body under the download
  directory, which is \<^verbatim>\<open>TEMP_DOWNLOAD_DIR\<close> or its default. \<open>None\<close> stands for a status
  other than 200 and for every exception raised on the way.
\<close>

definition download_dir :: "world \<Rightarrow> string" where
  "download_dir w = (case temp_download_dir w of None \<Rightarrow> ''/tmp/agno_pdfs'' | Some d \<Rightarrow> d)"

definition fetch_to_file ::
  "world \<Rightarrow> files \<Rightarrow> string \<Rightarrow> string \<Rightarrow> (string \<times> files) option" where
  "fetch_to_file w fs url file_name =
     (case requests_get w (url, []) of
        Raises e \<Rightarrow> None
      | Returns response \<Rightarrow>
          if status_code response = 200
          then
            (let temp_dir = download_dir w;
                 file_path = path_join temp_dir file_name
             in if write_raises w file_path then None
                else Some (file_path, fs(file_path \<mapsto> content response)))
          else None)"

text \<open>\<^verbatim>\<open>attachment_name and attachment_name.lower().endswith('.pdf')\<close>\<close>

definition is_pdf_attachment :: "attachment \<Rightarrow> bool" where
  "is_pdf_attachment a = (att_name a \<noteq> [] \<and> endswith (str_lower (att_name a)) ''.pdf'')"

text \<open>
  The body of the loop over the attachments, lines 216 to 242, for one attachment:
  \<open>None\<close> when the loop goes on to the next one.
\<close>

definition fetch_attachment ::
  "world \<Rightarrow> files \<Rightarrow> string \<Rightarrow> attachment \<Rightarrow> (string \<times> files) option" where
  "fetch_attachment w fs task_id a =
     (if is_pdf_attachment a
      then
        (case att_download_url a of
           None \<Rightarrow> None
         | Some download_url \<Rightarrow>
             if download_url = [] then None
             else fetch_to_file w fs download_url (task_id @ ''_'' @ att_name a))
      else None)"

text \<open>The loop over the attachments, lines 215 to 242.\<close>

fun download_attachments ::
  "world \<Rightarrow> files \<Rightarrow> string \<Rightarrow> attachment list \<Rightarrow> (string \<times> files) option" where
  "download_attachments w fs task_id [] = None"
| "download_attachments w fs task_id (a # rest) =
     (case fetch_attachment w fs task_id a of
        Some r \<Rightarrow> Some r
      | None \<Rightarrow> download_attachments w fs task_id rest)"

text \<open>The notes branch, lines 245 to 273.\<close>

definition download_from_notes ::
  "world \<Rightarrow> files \<Rightarrow> string \<Rightarrow> string \<Rightarrow> (string \<times> files) option" where
  "download_from_notes w fs task_id notes =
     (if notes \<noteq> []
      then
        (case first_pdf_url notes of
           None \<Rightarrow> None
         | Some pdf_url \<Rightarrow> fetch_to_file w fs pdf_url (task_id @ ''_'' @ last_segment pdf_url))
      else None)"

text \<open>
  \<^verbatim>\<open>download_pdf_from_task(task_id)\<close>: the path, or \<open>None\<close>, and the files afterwards.
\<close>

definition download_pdf_from_task ::
  "world \<Rightarrow> files \<Rightarrow> string \<Rightarrow> string option \<times> files" where
  "download_pdf_from_task w fs task_id =
     (case tasks_find_by_id w task_id of
        Raises e \<Rightarrow> (None, fs)
      | Returns task \<Rightarrow>
          (case download_attachments w fs task_id (tk_attachments task) of
             Some (file_path, fs') \<Rightarrow> (Some file_path, fs')
           | None \<Rightarrow>
               (case download_from_notes w fs task_id (tk_notes task) of
                  Some (file_path, fs') \<Rightarrow> (Some file_path, fs')
                | None \<Rightarrow> (None, fs))))"

section \<open>The two pipelines\<close>

text \<open>
  \<^verbatim>\<open>process_single_task(task_id, task_name)\<close> of the intelligent agent: the string
  it returns, the calls that changed the store, and the files afterwards.
\<close>

definition process_single_task ::
  "world \<Rightarrow> files \<Rightarrow> string \<Rightarrow> string \<Rightarrow> string \<times> store_call list \<times> files" where
  "process_single_task w fs task_id task_name =
     (let processing = snd (move_task_to_processing w task_id);
          (pdf_path, fs') = download_pdf_from_task w fs task_id
      in if truthy pdf_path
         then
           (let form_info = extract_form_info (pdf_open w) fs' (the pdf_path)
            in if form_info \<noteq> [] \<and> dict_get form_info ''form_type'' = Some ''471''
               then
                 (let search_result = fst (search_form470 (requests_get w) form_info)
                  in if pyval_truthy (map_of search_result ''found'')
                     then (''COMPLETED'',
                           processing
                           @ snd (mark_task_complete w task_id (map_of search_result ''form470_url'')),
                           fs')
                     else (''MANUAL_FOLLOWUP'',
                           processing
                           @ snd (move_task_to_manual_followup w task_id
                                    ''Form 470 not found in USAC database'')
                           @ snd (create_manual_review_subtask w task_id form_info),
                           fs'))
               else (''ISSUES'',
                     processing
                     @ snd (move_task_to_issues w task_id ''Not a Form 471 or extraction failed''),
                     fs'))
         else (''ISSUES'',
               processing @ snd (move_task_to_issues w task_id ''No PDF found or download failed''),
               fs'))"

text \<open>
  The body of the loop of \<^verbatim>\<open>process_qa_tasks\<close> of the direct runner, lines 63 to 108,
  for one task: the calls that changed the store, and the files afterwards.
\<close>

definition process_qa_task :: "world \<Rightarrow> files \<Rightarrow> string \<Rightarrow> store_call list \<times> files" where
  "process_qa_task w fs task_id =
     (let processing = snd (move_task_to_processing w task_id);
          (pdf_path, fs') = download_pdf_from_task w fs task_id
      in if truthy pdf_path
         then
           (let form_info = extract_form_info (pdf_open w) fs' (the pdf_path)
            in if form_info \<noteq> []
               then
                 (let search_result = fst (search_form470 (requests_get w) form_info)
                  in if pyval_truthy (map_of search_result ''found'')
                     then (processing
                           @ snd (mark_task_complete w task_id (map_of search_result ''form470_url'')),
                           fs')
                     else (processing
                           @ snd (move_task_to_manual_followup w task_id
                                    ''Form 470 not found in USAC database'')
                           @ snd (create_manual_review_subtask w task_id form_info),
                           fs'))
               else (processing
                     @ snd (move_task_to_issues w task_id
                              ''Failed to extract form information from PDF''),
                     fs'))
         else (processing @ snd (move_task_to_issues w task_id ''No PDF found or download failed''),
               fs'))"

text \<open>The loops over the tasks of the QA section, one task after the other.\<close>

fun process_all ::
  "(files \<Rightarrow> task \<Rightarrow> store_call list \<times> files) \<Rightarrow> files \<Rightarrow> task list
     \<Rightarrow> store_call list \<times> files" where
  "process_all step fs [] = ([], fs)"
| "process_all step fs (t # ts) =
     (let (calls, fs') = step fs t; (calls', fs'') = process_all step fs' ts
      in (calls @ calls', fs''))"

text \<open>\<^verbatim>\<open>process_qa_tasks()\<close> of the direct runner\<close>

definition process_qa_tasks :: "world \<Rightarrow> files \<Rightarrow> store_call list \<times> files" where
  "process_qa_tasks w fs =
     process_all (\<lambda>fs t. process_qa_task w fs (tk_gid t)) fs (get_qa_tasks w)"

text \<open>\<^verbatim>\<open>process_qa_tasks_intelligently()\<close> of the intelligent agent\<close>

definition process_qa_tasks_intelligently :: "world \<Rightarrow> files \<Rightarrow> store_call list \<times> files" where
  "process_qa_tasks_intelligently w fs =
     process_all (\<lambda>fs t. snd (process_single_task w fs (tk_gid t) (tk_name t))) fs
       (get_qa_tasks w)"

section \<open>Notions used to state the properties\<close>

text \<open>The text contains \<open>p\<close>, ignoring case.\<close>

definition occurs_ci :: "string \<Rightarrow> string \<Rightarrow> bool" where
  "occurs_ci p text = (\<exists>pre mid post. text = pre @ mid @ post \<and> str_lower mid = str_lower p)"

text \<open>
  At the start of \<open>suf\<close> stand the label \<open>Application Number\<close> in any case, then colons
  and whitespace, then the digit run \<open>g\<close>, which ends where the digits end.
\<close>

definition label_digits_at :: "string \<Rightarrow> string \<Rightarrow> bool" where
  "label_digits_at suf g =
     (\<exists>lab sep post. suf = lab @ sep @ g @ post \<and> str_lower lab = ''application number''
        \<and> list_all is_sep sep \<and> g \<noteq> [] \<and> list_all is_digit g
        \<and> (post = [] \<or> \<not> is_digit (hd post)))"

text \<open>\<open>suf\<close> starts with the nine digits \<open>g\<close>, whatever follows them.\<close>

definition nine_digits_at :: "string \<Rightarrow> string \<Rightarrow> bool" where
  "nine_digits_at suf g = (\<exists>post. suf = g @ post \<and> length g = 9 \<and> list_all is_digit g)"

text \<open>\<open>P\<close> holds with \<open>g\<close> at some position of the text and at no earlier position.\<close>

definition leftmost :: "(string \<Rightarrow> string \<Rightarrow> bool) \<Rightarrow> string \<Rightarrow> string \<Rightarrow> bool" where
  "leftmost P text g =
     (\<exists>pre suf. text = pre @ suf \<and> P suf g
        \<and> (\<forall>pre' suf' g'. text = pre' @ suf' \<and> length pre' < length pre \<longrightarrow> \<not> P suf' g'))"

text \<open>\<open>P\<close> holds at no position of the text.\<close>

definition nowhere :: "(string \<Rightarrow> string \<Rightarrow> bool) \<Rightarrow> string \<Rightarrow> bool" where
  "nowhere P text = (\<forall>pre suf g. text = pre @ suf \<longrightarrow> \<not> P suf g)"

text \<open>
  The fallback rule as the specification words it, a standalone run of nine digits: the
  digit runs of the text that no digit precedes or follows, and the first of them that has
  nine digits.
\<close>

fun digit_runs :: "string \<Rightarrow> string \<Rightarrow> string list" where
  "digit_runs cur [] = (if cur = [] then [] else [cur])"
| "digit_runs cur (c # cs) =
     (if is_digit c then digit_runs (cur @ [c]) cs
      else (if cur = [] then [] else [cur]) @ digit_runs [] cs)"

definition spec_standalone_run :: "nat \<Rightarrow> string \<Rightarrow> string option" where
  "spec_standalone_run n text = find (\<lambda>r. length r = n) (digit_runs [] text)"

definition spec_application_number :: "string \<Rightarrow> string option" where
  "spec_application_number text =
     (case re_search re_application_number text of
        Some g \<Rightarrow> Some g
      | None \<Rightarrow> spec_standalone_run 9 text)"

text \<open>
  The fetch of a URL into a file fails: the request raises, or its status is not 200, or
  the file cannot be written.
\<close>

definition fetch_fails :: "world \<Rightarrow> string \<Rightarrow> string \<Rightarrow> bool" where
  "fetch_fails w url file_name =
     (case requests_get w (url, []) of
        Raises e \<Rightarrow> True
      | Returns response \<Rightarrow>
          status_code response \<noteq> 200 \<or> write_raises w (path_join (download_dir w) file_name))"

text \<open>An attachment gives no document: it has no download URL, or its fetch fails.\<close>

definition attachment_fails :: "world \<Rightarrow> string \<Rightarrow> attachment \<Rightarrow> bool" where
  "attachment_fails w task_id a =
     (case att_download_url a of
        None \<Rightarrow> True
      | Some url \<Rightarrow> url = [] \<or> fetch_fails w url (task_id @ ''_'' @ att_name a))"

text \<open>
  The first section, in the order of the store, whose name contains every one of the
  given words, ignoring case.
\<close>

definition first_section_with :: "string list \<Rightarrow> store_section list \<Rightarrow> store_section option" where
  "first_section_with words secs =
     find (\<lambda>s. list_all (\<lambda>word. occurs_ci word (sec_name s)) words) secs"

text \<open>
  A call that belongs to the outcome Completed or to the outcome ManualFollowup: marking
  the task completed, the comments of those two outcomes, and the creation of a child
  task.
\<close>

fun completes_or_follows_up :: "store_call \<Rightarrow> bool" where
  "completes_or_follows_up (UpdateCompleted task_id) = True"
| "completes_or_follows_up (CreateTask subtask_data) = True"
| "completes_or_follows_up (AddComment task_id (CompletedComment url)) = True"
| "completes_or_follows_up (AddComment task_id (ManualFollowupComment reason)) = True"
| "completes_or_follows_up (AddComment task_id ProcessingComment) = False"
| "completes_or_follows_up (AddComment task_id (IssuesComment reason)) = False"
| "completes_or_follows_up (AddTask section_gid task_id) = False"

section \<open>Example data\<close>

text \<open>A registry that answers every query with one status and one decoded body.\<close>

definition registry_answer :: "nat \<Rightarrow> pydict list attempt \<Rightarrow> request \<Rightarrow> response attempt" where
  "registry_answer st body q = Returns \<lparr>status_code = st, content = [], json = body\<rparr>"

text \<open>A registry that cannot be reached.\<close>

definition registry_down :: "request \<Rightarrow> response attempt" where
  "registry_down q = Raises ''connection refused''"

text \<open>The record extracted from a Form 471 that cites its Form 470.\<close>

definition form471_info :: pydict where
  "form471_info =
     [(''application_number'', ''251043327''),
      (''form_type'', ''471''),
      (''billed_entity_name'', ''Unknown''),
      (''establishing_form470_number'', ''123456789012345'')]"

text \<open>
  A web in which the listed URLs serve the listed bodies, every other URL answers 404, and
  the registry answers every query with the given status and records.
\<close>

definition web_of ::
  "(string \<times> string) list \<Rightarrow> nat \<Rightarrow> pydict list \<Rightarrow> request \<Rightarrow> response attempt" where
  "web_of docs st records q =
     (if fst q = usac_url
      then Returns \<lparr>status_code = st, content = [], json = Returns records\<rparr>
      else
        (case map_of docs (fst q) of
           Some body \<Rightarrow> Returns \<lparr>status_code = 200, content = body, json = Raises ''not JSON''\<rparr>
         | None \<Rightarrow> Returns \<lparr>status_code = 404, content = [], json = Raises ''not JSON''\<rparr>))"

text \<open>The sections of a project set up for the workflow.\<close>

definition qa_sections :: "store_section list" where
  "qa_sections =
     [\<lparr>sec_gid = ''s1'', sec_name = ''QA''\<rparr>,
      \<lparr>sec_gid = ''s2'', sec_name = ''QA - Processing''\<rparr>,
      \<lparr>sec_gid = ''s3'', sec_name = ''QA - Manual Follow-up Required''\<rparr>,
      \<lparr>sec_gid = ''s4'', sec_name = ''QA - Issues''\<rparr>]"

text \<open>
  A world with the given tasks and web, in which the store accepts every write, every
  file can be written, and a document's text is its bytes on one page.
\<close>

definition world_of :: "task list \<Rightarrow> (request \<Rightarrow> response attempt) \<Rightarrow> world" where
  "world_of tasks web =
     \<lparr>tasks_find_by_id =
        (\<lambda>task_id. case find (\<lambda>t. tk_gid t = task_id) tasks of
                      None \<Rightarrow> Raises ''Not Found''
                    | Some t \<Rightarrow> Returns t),
      tasks_find_by_project = Returns tasks,
      sections_find_by_project = Returns qa_sections,
      project_workspace = Returns (Some ''w1''),
      add_task_raises = (\<lambda>section_gid task_id. False),
      add_comment_raises = (\<lambda>task_id. False),
      update_raises = (\<lambda>task_id. False),
      create_raises = (\<lambda>subtask_data. False),
      requests_get = web,
      pdf_open = (\<lambda>bytes. Returns [Some bytes]),
      temp_download_dir = None,
      write_raises = (\<lambda>file_path. False)\<rparr>"

text \<open>A task with a PDF URL in its notes and no attachment.\<close>

definition url_task :: "string \<Rightarrow> string \<Rightarrow> string \<Rightarrow> task" where
  "url_task task_id section_name url =
     \<lparr>tk_gid = task_id, tk_name = ''Test Form 471 with PDF URL'',
      tk_notes = ''Form 471 URL: '' @ url, tk_attachments = [],
      tk_sections = [section_name]\<rparr>"

text \<open>A task with neither an attachment nor a URL.\<close>

definition bare_task :: "string \<Rightarrow> task" where
  "bare_task task_id =
     \<lparr>tk_gid = task_id, tk_name = ''Test No PDF Available'',
      tk_notes = ''This task has no PDF attachments or URLs.'', tk_attachments = [],
      tk_sections = [''QA'']\<rparr>"

text \<open>An attachment with a name and a download URL.\<close>

definition named_attachment :: "string \<Rightarrow> string \<Rightarrow> attachment" where
  "named_attachment file_name url = \<lparr>att_name = file_name, att_download_url = Some url\<rparr>"

text \<open>A task with the given attachments and a PDF URL in its notes.\<close>

definition attachment_task :: "string \<Rightarrow> attachment list \<Rightarrow> string \<Rightarrow> task" where
  "attachment_task task_id atts url =
     \<lparr>tk_gid = task_id, tk_name = ''Test attachments'',
      tk_notes = ''Form 471 URL: '' @ url, tk_attachments = atts,
      tk_sections = [''QA'']\<rparr>"

text \<open>
  A world for the document locator. Task 1 has a PDF attachment that answers 404 and a
  URL in its notes that is served; task 2 has no source at all; the URL of task 3 answers
  404; task 4 has a PDF attachment that answers 404, a text attachment, and a PDF
  attachment that is served.
\<close>

definition locator_world :: world where
  "locator_world =
     world_of
       [attachment_task ''1'' [named_attachment ''Form.PDF'' ''http://files/a''] ''http://x/y.pdf'',
        bare_task ''2'',
        url_task ''3'' ''QA'' ''http://x/missing.pdf'',
        attachment_task ''4''
          [named_attachment ''Form.PDF'' ''http://files/a'',
           named_attachment ''notes.txt'' ''http://files/t'',
           named_attachment ''b.pdf'' ''http://files/b'']
          ''http://x/y.pdf'']
       (web_of [(''http://x/y.pdf'', ''Form 471''), (''http://files/b'', ''Form 471'')] 200 [])"

text \<open>
  A world for the pipelines: one task, 1, in the section QA, whose notes give the URL of a
  document with the given text; the registry answers with the given status and records.
\<close>

definition pipeline_world :: "string \<Rightarrow> nat \<Rightarrow> pydict list \<Rightarrow> world" where
  "pipeline_world doc st records =
     world_of [url_task ''1'' ''QA'' ''http://x/y.pdf''] (web_of [(''http://x/y.pdf'', doc)] st records)"

definition form471_doc :: string where
  "form471_doc =
     ''Form 471 Application Number: 251043327 Establishing FCC Form 470: 123456789012345''"

definition form470_doc :: string where
  "form470_doc = ''Form 470 Application Number: 251043327''"

definition scan_doc :: string where
  "scan_doc = ''scanned image''"

section \<open>Evaluation rules\<close>

text \<open>
  Lower-casing on the bits of a character: the capitals are the code points
  \<open>010xxxxx\<close> with \<open>xxxxx\<close> from 1 to 26 and \<open>110xxxxx\<close> with \<open>xxxxx\<close> other than 23
  and 31, and adding 32 sets bit 5.
\<close>

lemma lower_char_Char [code]:
  "lower_char (Char b0 b1 b2 b3 b4 b5 b6 b7) =
     (if b6 \<and> \<not> b5
         \<and> (\<not> b7 \<and> (b0 \<or> b1 \<or> b2 \<or> b3 \<or> b4) \<and> \<not> (b4 \<and> b3 \<and> (b2 \<or> b1 \<and> b0))
             \<or> b7 \<and> \<not> (b4 \<and> b2 \<and> b1 \<and> b0))
      then Char b0 b1 b2 b3 b4 True b6 b7
      else Char b0 b1 b2 b3 b4 b5 b6 b7)"
  by (cases b0; cases b1; cases b2; cases b3; cases b4; cases b5; cases b6; cases b7;
      simp add: lower_char_def char_of_def bit_0)

section \<open>Properties of the registry matcher\<close>

lemma search_no_key:
  "\<not> truthy (search_number_of fi) \<Longrightarrow>
   search_form470 rg fi
   = ([(''found'', PBool False), (''error'', PStr ''No search number found'')], [])"
  by (cases "search_number_of fi") (auto simp: search_form470_def)

lemma search_requests:
  "search_number_of fi = Some k \<Longrightarrow> k \<noteq> [] \<Longrightarrow> snd (search_form470 rg fi) = [usac_request k]"
  by (auto simp: search_form470_def Let_def split: attempt.splits list.splits)

lemma form471_info_number: "search_number_of form471_info = Some ''123456789012345''"
  by (simp add: search_number_of_def form471_info_def dict_get_def)

text \<open>
  C1. The number the matcher searches for is the establishing Form 470 number when the
  form type is 471 and that number is set (present and not empty); in every other case
  it is the application number. The registry receives exactly one query, for that
  number. When the number so chosen is missing or empty, the result is
  \<open>found = False\<close> with the error \<open>No search number found\<close>, and no query is sent.
\<close>

theorem search_form470_search_key:
  "(dict_get form_info ''form_type'' = Some ''471''
      \<and> dict_get form_info ''establishing_form470_number'' = Some e \<and> e \<noteq> []
    \<longrightarrow> snd (search_form470 rg form_info) = [usac_request e])
   \<and> (\<not> (dict_get form_info ''form_type'' = Some ''471''
            \<and> truthy (dict_get form_info ''establishing_form470_number''))
        \<and> dict_get form_info ''application_number'' = Some a \<and> a \<noteq> []
       \<longrightarrow> snd (search_form470 rg form_info) = [usac_request a])
   \<and> (\<not> (dict_get form_info ''form_type'' = Some ''471''
            \<and> truthy (dict_get form_info ''establishing_form470_number''))
        \<and> \<not> truthy (dict_get form_info ''application_number'')
       \<longrightarrow> search_form470 rg form_info
             = ([(''found'', PBool False), (''error'', PStr ''No search number found'')], []))"
proof (intro conjI impI)
  assume "dict_get form_info ''form_type'' = Some ''471''
      \<and> dict_get form_info ''establishing_form470_number'' = Some e \<and> e \<noteq> []"
  then have "search_number_of form_info = Some e" and "e \<noteq> []"
    by (simp_all add: search_number_of_def)
  then show "snd (search_form470 rg form_info) = [usac_request e]"
    by (rule search_requests)
next
  assume "\<not> (dict_get form_info ''form_type'' = Some ''471''
            \<and> truthy (dict_get form_info ''establishing_form470_number''))
        \<and> dict_get form_info ''application_number'' = Some a \<and> a \<noteq> []"
  then have "search_number_of form_info = Some a" and "a \<noteq> []"
    by (auto simp: search_number_of_def)
  then show "snd (search_form470 rg form_info) = [usac_request a]"
    by (rule search_requests)
next
  assume "\<not> (dict_get form_info ''form_type'' = Some ''471''
            \<and> truthy (dict_get form_info ''establishing_form470_number''))
        \<and> \<not> truthy (dict_get form_info ''application_number'')"
  then have "\<not> truthy (search_number_of form_info)"
    by (auto simp: search_number_of_def)
  then show "search_form470 rg form_info
             = ([(''found'', PBool False), (''error'', PStr ''No search number found'')], [])"
    by (rule search_no_key)
qed

text \<open>
  The three cases at concrete records: the record extracted from a Form 471 whose text
  cites \<open>Establishing FCC Form 470: 123456789012345\<close>, a Form 470 record, and a record
  without any number.
\<close>

theorem search_form470_search_key_witness:
  "snd (search_form470 registry_down
          (form_info_of_text ''Form 471 Establishing FCC Form 470: 123456789012345''))
     = [usac_request ''123456789012345'']
   \<and> snd (search_form470 registry_down
          [(''application_number'', ''251043327''), (''form_type'', ''470'')])
     = [usac_request ''251043327'']
   \<and> search_form470 registry_down [(''form_type'', ''471'')]
     = ([(''found'', PBool False), (''error'', PStr ''No search number found'')], [])"
proof -
  have fi: "form_info_of_text ''Form 471 Establishing FCC Form 470: 123456789012345''
            = [(''application_number'', ''123456789''),
               (''form_type'', ''471''),
               (''billed_entity_name'', ''Unknown''),
               (''establishing_form470_number'', ''123456789012345'')]"
    by code_simp
  have "snd (search_form470 registry_down
          [(''application_number'', ''123456789''),
           (''form_type'', ''471''),
           (''billed_entity_name'', ''Unknown''),
           (''establishing_form470_number'', ''123456789012345'')])
        = [usac_request ''123456789012345'']"
    using search_form470_search_key
      [of "[(''application_number'', ''123456789''),
            (''form_type'', ''471''),
            (''billed_entity_name'', ''Unknown''),
            (''establishing_form470_number'', ''123456789012345'')]"
          "''123456789012345''" registry_down "''123456789''"]
    by (simp add: dict_get_def)
  moreover have "snd (search_form470 registry_down
          [(''application_number'', ''251043327''), (''form_type'', ''470'')])
        = [usac_request ''251043327'']"
    using search_form470_search_key
      [of "[(''application_number'', ''251043327''), (''form_type'', ''470'')]"
          "''0''" registry_down "''251043327''"]
    by (simp add: dict_get_def)
  moreover have "search_form470 registry_down [(''form_type'', ''471'')]
        = ([(''found'', PBool False), (''error'', PStr ''No search number found'')], [])"
    using search_form470_search_key
      [of "[(''form_type'', ''471'')]" "''0''" registry_down "''0''"]
    by (simp add: dict_get_def)
  ultimately show ?thesis
    by (simp only: fi)
qed

lemma form_info_establishing_471:
  "dict_get (form_info_of_text text) ''establishing_form470_number'' = Some e \<Longrightarrow>
   dict_get (form_info_of_text text) ''form_type'' = Some ''471''"
  by (cases "application_number_of text")
     (auto simp: form_info_of_text_def dict_get_def Let_def split: if_splits option.splits)

lemma py_or_populated:
  assumes "search_number_of fi = Some k" and "k \<noteq> []"
  shows "truthy (py_or (dict_get fi ''establishing_form470_number'')
                       (dict_get fi ''application_number''))"
  using assms by (auto simp: search_number_of_def py_or_def split: if_splits)

lemma py_or_is_key:
  assumes "search_number_of fi = Some k"
    and "dict_get fi ''form_type'' = Some ''471''
         \<or> \<not> truthy (dict_get fi ''establishing_form470_number'')"
  shows "py_or (dict_get fi ''establishing_form470_number'') (dict_get fi ''application_number'')
         = Some k"
  using assms by (auto simp: search_number_of_def py_or_def split: if_splits)

text \<open>
  C4. Let a query be sent, that is, let the search number \<open>k\<close> be present and not empty.
  \<^item> Status 200 with no record: \<open>found = False\<close>, the search number, and no \<open>error\<close> key.
  \<^item> Status 200 with a first record whose \<open>form_pdf\<close> is not empty: \<open>found = True\<close> and
    \<open>form470_url\<close> is that value.
  \<^item> Status 200 with a first record whose \<open>form_pdf\<close> is missing or empty:
    \<open>found = False\<close> with the error \<open>No URL in record\<close>.
  \<^item> Any other status: \<open>found = False\<close>, the error \<open>API error:\<close> with the status, and
    the search number \<open>k\<close>.
  \<^item> An exception, from the request or from decoding the body: \<open>found = False\<close>, the
    error is the exception's message, and \<open>search_number\<close> holds the establishing number
    if that is set and the application number otherwise. That value is never empty, and it
    is \<open>k\<close> itself whenever the form type is 471, or no establishing number is set, or
    the record comes from the extractor.
\<close>

theorem search_form470_response:
  assumes "search_number_of form_info = Some k" and "k \<noteq> []"
  shows "(rg (usac_request k) = Returns r \<and> status_code r = 200 \<and> json r = Returns []
          \<longrightarrow> search_form470 rg form_info
               = ([(''found'', PBool False), (''search_number'', PStr k)], [usac_request k]))
       \<and> (rg (usac_request k) = Returns r \<and> status_code r = 200
            \<and> json r = Returns (first # others) \<and> dict_get_default first ''form_pdf'' [] \<noteq> []
          \<longrightarrow> search_form470 rg form_info
               = ([(''found'', PBool True),
                   (''form470_url'', PStr (dict_get_default first ''form_pdf'' [])),
                   (''search_number'', PStr k),
                   (''record'', PDict first)], [usac_request k]))
       \<and> (rg (usac_request k) = Returns r \<and> status_code r = 200
            \<and> json r = Returns (first # others) \<and> dict_get_default first ''form_pdf'' [] = []
          \<longrightarrow> search_form470 rg form_info
               = ([(''found'', PBool False), (''search_number'', PStr k),
                   (''error'', PStr ''No URL in record'')], [usac_request k]))
       \<and> (rg (usac_request k) = Returns r \<and> status_code r \<noteq> 200
          \<longrightarrow> search_form470 rg form_info
               = ([(''found'', PBool False), (''search_number'', PStr k),
                   (''error'', PStr (''API error: '' @ string_of_nat (status_code r)))],
                  [usac_request k]))
       \<and> (rg (usac_request k) = Raises e
            \<or> (rg (usac_request k) = Returns r \<and> status_code r = 200 \<and> json r = Raises e)
          \<longrightarrow> search_form470 rg form_info
               = ([(''found'', PBool False),
                   (''search_number'',
                      pyval_of (py_or (dict_get form_info ''establishing_form470_number'')
                                      (dict_get form_info ''application_number''))),
                   (''error'', PStr e)], [usac_request k])
              \<and> truthy (py_or (dict_get form_info ''establishing_form470_number'')
                               (dict_get form_info ''application_number''))
              \<and> (dict_get form_info ''form_type'' = Some ''471''
                    \<or> \<not> truthy (dict_get form_info ''establishing_form470_number'')
                    \<or> (\<exists>text. form_info = form_info_of_text text)
                  \<longrightarrow> py_or (dict_get form_info ''establishing_form470_number'')
                             (dict_get form_info ''application_number'') = Some k))"
proof -
  let ?alt = "py_or (dict_get form_info ''establishing_form470_number'')
                    (dict_get form_info ''application_number'')"
  from assms have pop: "truthy ?alt" by (rule py_or_populated)
  have key: "?alt = Some k"
    if "dict_get form_info ''form_type'' = Some ''471''
          \<or> \<not> truthy (dict_get form_info ''establishing_form470_number'')
          \<or> (\<exists>text. form_info = form_info_of_text text)"
  proof -
    have "dict_get form_info ''form_type'' = Some ''471''
          \<or> \<not> truthy (dict_get form_info ''establishing_form470_number'')"
      using that form_info_establishing_471
      by (cases "dict_get form_info ''establishing_form470_number''") auto
    with assms(1) show ?thesis by (rule py_or_is_key)
  qed
  show ?thesis
    using assms pop key
    by (auto simp: search_form470_def search_exception_def Let_def)
qed

text \<open>The five cases for the record of a Form 471 that cites its Form 470.\<close>

theorem search_form470_response_witness:
  "search_form470 (registry_answer 200 (Returns [])) form471_info
     = ([(''found'', PBool False), (''search_number'', PStr ''123456789012345'')],
        [usac_request ''123456789012345''])
   \<and> search_form470 (registry_answer 200 (Returns [[(''form_pdf'', ''http://x/y.pdf'')]]))
        form471_info
     = ([(''found'', PBool True),
         (''form470_url'', PStr ''http://x/y.pdf''),
         (''search_number'', PStr ''123456789012345''),
         (''record'', PDict [(''form_pdf'', ''http://x/y.pdf'')])],
        [usac_request ''123456789012345''])
   \<and> search_form470 (registry_answer 200 (Returns [[(''applicant'', ''Acme'')]])) form471_info
     = ([(''found'', PBool False), (''search_number'', PStr ''123456789012345''),
         (''error'', PStr ''No URL in record'')],
        [usac_request ''123456789012345''])
   \<and> search_form470 (registry_answer 500 (Returns [])) form471_info
     = ([(''found'', PBool False), (''search_number'', PStr ''123456789012345''),
         (''error'', PStr ''API error: 500'')],
        [usac_request ''123456789012345''])
   \<and> search_form470 registry_down form471_info
     = ([(''found'', PBool False), (''search_number'', PStr ''123456789012345''),
         (''error'', PStr ''connection refused'')],
        [usac_request ''123456789012345''])"
proof -
  note k = form471_info_number
  have ne: "''123456789012345'' \<noteq> []" by simp
  have alt: "py_or (dict_get form471_info ''establishing_form470_number'')
                   (dict_get form471_info ''application_number'') = Some ''123456789012345''"
    by (simp add: py_or_def form471_info_def dict_get_def)
  have a: "search_form470 (registry_answer 200 (Returns [])) form471_info
     = ([(''found'', PBool False), (''search_number'', PStr ''123456789012345'')],
        [usac_request ''123456789012345''])"
    using search_form470_response [OF k ne, of "registry_answer 200 (Returns [])"
        "\<lparr>status_code = 200, content = [], json = Returns []\<rparr>"]
    by (simp add: registry_answer_def)
  have b: "search_form470 (registry_answer 200 (Returns [[(''form_pdf'', ''http://x/y.pdf'')]]))
        form471_info
     = ([(''found'', PBool True),
         (''form470_url'', PStr ''http://x/y.pdf''),
         (''search_number'', PStr ''123456789012345''),
         (''record'', PDict [(''form_pdf'', ''http://x/y.pdf'')])],
        [usac_request ''123456789012345''])"
    using search_form470_response [OF k ne,
        of "registry_answer 200 (Returns [[(''form_pdf'', ''http://x/y.pdf'')]])"
        "\<lparr>status_code = 200, content = [],
          json = Returns [[(''form_pdf'', ''http://x/y.pdf'')]]\<rparr>"
        "[(''form_pdf'', ''http://x/y.pdf'')]" "[]"]
    by (simp add: registry_answer_def dict_get_default_def)
  have c: "search_form470 (registry_answer 200 (Returns [[(''applicant'', ''Acme'')]]))
        form471_info
     = ([(''found'', PBool False), (''search_number'', PStr ''123456789012345''),
         (''error'', PStr ''No URL in record'')],
        [usac_request ''123456789012345''])"
    using search_form470_response [OF k ne,
        of "registry_answer 200 (Returns [[(''applicant'', ''Acme'')]])"
        "\<lparr>status_code = 200, content = [], json = Returns [[(''applicant'', ''Acme'')]]\<rparr>"
        "[(''applicant'', ''Acme'')]" "[]"]
    by (simp add: registry_answer_def dict_get_default_def)
  have d: "search_form470 (registry_answer 500 (Returns [])) form471_info
     = ([(''found'', PBool False), (''search_number'', PStr ''123456789012345''),
         (''error'', PStr ''API error: 500'')],
        [usac_request ''123456789012345''])"
    using search_form470_response [OF k ne, of "registry_answer 500 (Returns [])"
        "\<lparr>status_code = 500, content = [], json = Returns []\<rparr>"]
    by (simp add: registry_answer_def char_of_def bit_0)
  have e: "search_form470 registry_down form471_info
     = ([(''found'', PBool False), (''search_number'', PStr ''123456789012345''),
         (''error'', PStr ''connection refused'')],
        [usac_request ''123456789012345''])"
    using search_form470_response [OF k ne, of registry_down _ _ _ "''connection refused''"]
    by (simp add: registry_down_def alt)
  from a b c d e show ?thesis by (simp only: simp_thms)
qed

lemma contains_sublist: "contains sub s \<longleftrightarrow> sublist sub s"
  by (induction s) (auto simp: sublist_Cons_right)

lemma str_lower_length [simp]: "length (str_lower s) = length s"
  by (simp add: str_lower_def)

lemma str_lower_append [simp]: "str_lower (a @ b) = str_lower a @ str_lower b"
  by (simp add: str_lower_def)

lemma lit_ci_iff:
  "lit_ci p s = Some r \<longleftrightarrow> (\<exists>lab. s = lab @ r \<and> str_lower lab = str_lower p)"
proof (induction p s rule: lit_ci.induct)
  case (1 s)
  then show ?case by (auto simp: str_lower_def)
next
  case (2 p ps)
  then show ?case by (auto simp: str_lower_def)
next
  case (3 p ps c cs)
  show ?case
  proof
    assume "lit_ci (p # ps) (c # cs) = Some r"
    then have eq: "lower_char c = lower_char p" and rest: "lit_ci ps cs = Some r"
      by (auto split: if_splits)
    from rest 3 eq obtain lab where "cs = lab @ r" "str_lower lab = str_lower ps"
      by auto
    with eq have "c # cs = (c # lab) @ r \<and> str_lower (c # lab) = str_lower (p # ps)"
      by (simp add: str_lower_def)
    then show "\<exists>lab. c # cs = lab @ r \<and> str_lower lab = str_lower (p # ps)"
      by blast
  next
    assume "\<exists>lab. c # cs = lab @ r \<and> str_lower lab = str_lower (p # ps)"
    then obtain lab where l: "c # cs = lab @ r" "str_lower lab = str_lower (p # ps)"
      by blast
    then obtain lab' where lab: "lab = c # lab'"
      by (cases lab) (auto simp: str_lower_def)
    with l have eq: "lower_char c = lower_char p" and "cs = lab' @ r"
      and "str_lower lab' = str_lower ps"
      by (auto simp: str_lower_def)
    with 3 show "lit_ci (p # ps) (c # cs) = Some r"
      by auto
  qed
qed

lemma digit_not_sep: "is_digit c \<Longrightarrow> \<not> is_sep c"
  by (auto simp: is_digit_def is_sep_def is_space_def)

lemma digits_after_sep_iff:
  "digits_after_sep s = Some g \<longleftrightarrow>
   (\<exists>sep post. s = sep @ g @ post \<and> list_all is_sep sep \<and> g \<noteq> [] \<and> list_all is_digit g
      \<and> (post = [] \<or> \<not> is_digit (hd post)))"
proof
  assume a: "digits_after_sep s = Some g"
  let ?sep = "takeWhile is_sep s" and ?t = "dropWhile is_sep s"
  from a have g: "g = takeWhile is_digit ?t" "g \<noteq> []"
    by (auto simp: digits_after_sep_def Let_def split: if_splits)
  have "s = ?sep @ g @ dropWhile is_digit ?t"
    by (simp add: g)
  moreover have "list_all is_sep ?sep"
    by (simp add: list_all_iff) (meson set_takeWhileD)
  moreover have "list_all is_digit g"
    unfolding g by (simp add: list_all_iff) (meson set_takeWhileD)
  moreover have "dropWhile is_digit ?t = [] \<or> \<not> is_digit (hd (dropWhile is_digit ?t))"
    using hd_dropWhile by blast
  ultimately show "\<exists>sep post. s = sep @ g @ post \<and> list_all is_sep sep \<and> g \<noteq> []
      \<and> list_all is_digit g \<and> (post = [] \<or> \<not> is_digit (hd post))"
    using g(2) by blast
next
  assume "\<exists>sep post. s = sep @ g @ post \<and> list_all is_sep sep \<and> g \<noteq> [] \<and> list_all is_digit g
      \<and> (post = [] \<or> \<not> is_digit (hd post))"
  then obtain sep post where s: "s = sep @ g @ post" and sep: "list_all is_sep sep"
    and g: "g \<noteq> []" "list_all is_digit g" and post: "post = [] \<or> \<not> is_digit (hd post)"
    by blast
  from g obtain d g' where gd: "g = d # g'" and d: "is_digit d"
    by (cases g) auto
  have "dropWhile is_sep s = g @ post"
    unfolding s using sep d gd digit_not_sep
    by (simp add: list_all_iff dropWhile_append2)
  moreover have "takeWhile is_digit (g @ post) = g"
  proof (cases post)
    case Nil
    then show ?thesis using g by (simp add: list_all_iff)
  next
    case (Cons x xs)
    with post have "\<not> is_digit x" by simp
    with Cons g show ?thesis
      by (simp add: list_all_iff takeWhile_append2)
  qed
  ultimately show "digits_after_sep s = Some g"
    using g by (simp add: digits_after_sep_def Let_def)
qed

lemma re_search_Some_iff:
  "re_search m s = Some r \<longleftrightarrow>
   (\<exists>pre suf. s = pre @ suf \<and> m suf = Some r
      \<and> (\<forall>pre' suf'. s = pre' @ suf' \<and> length pre' < length pre \<longrightarrow> m suf' = None))"
proof (induction s)
  case Nil
  then show ?case by auto
next
  case (Cons c cs)
  show ?case
  proof (cases "m (c # cs)")
    case (Some x)
    show ?thesis
    proof
      assume "re_search m (c # cs) = Some r"
      with Some have "m (c # cs) = Some r" by simp
      then have "c # cs = [] @ (c # cs) \<and> m (c # cs) = Some r
        \<and> (\<forall>pre' suf'. c # cs = pre' @ suf' \<and> length pre' < length ([]::string)
              \<longrightarrow> m suf' = None)"
        by simp
      then show "\<exists>pre suf. c # cs = pre @ suf \<and> m suf = Some r
        \<and> (\<forall>pre' suf'. c # cs = pre' @ suf' \<and> length pre' < length pre \<longrightarrow> m suf' = None)"
        by blast
    next
      assume "\<exists>pre suf. c # cs = pre @ suf \<and> m suf = Some r
        \<and> (\<forall>pre' suf'. c # cs = pre' @ suf' \<and> length pre' < length pre \<longrightarrow> m suf' = None)"
      then obtain pre suf where p: "c # cs = pre @ suf" "m suf = Some r"
        and first: "\<forall>pre' suf'. c # cs = pre' @ suf' \<and> length pre' < length pre
                      \<longrightarrow> m suf' = None"
        by blast
      have "pre = []"
      proof (rule ccontr)
        assume "pre \<noteq> []"
        then have "length ([]::string) < length pre" by simp
        with first have "m (c # cs) = None"
          by (metis append_Nil)
        with Some show False by simp
      qed
      with p have "m (c # cs) = Some r" by simp
      then show "re_search m (c # cs) = Some r" by simp
    qed
  next
    case None
    have "re_search m (c # cs) = re_search m cs"
      using None by simp
    also have "\<dots> = Some r \<longleftrightarrow>
      (\<exists>pre suf. cs = pre @ suf \<and> m suf = Some r
        \<and> (\<forall>pre' suf'. cs = pre' @ suf' \<and> length pre' < length pre \<longrightarrow> m suf' = None))"
      by (rule Cons.IH)
    also have "\<dots> \<longleftrightarrow>
      (\<exists>pre suf. c # cs = pre @ suf \<and> m suf = Some r
        \<and> (\<forall>pre' suf'. c # cs = pre' @ suf' \<and> length pre' < length pre \<longrightarrow> m suf' = None))"
    proof
      assume "\<exists>pre suf. cs = pre @ suf \<and> m suf = Some r
        \<and> (\<forall>pre' suf'. cs = pre' @ suf' \<and> length pre' < length pre \<longrightarrow> m suf' = None)"
      then obtain pre suf where p: "cs = pre @ suf" "m suf = Some r"
        and first: "\<forall>pre' suf'. cs = pre' @ suf' \<and> length pre' < length pre \<longrightarrow> m suf' = None"
        by blast
      have "m suf' = None" if a: "c # cs = pre' @ suf'" "length pre' < length (c # pre)"
        for pre' suf'
      proof (cases pre')
        case Nil
        with a None show ?thesis by simp
      next
        case (Cons x xs)
        with a have "cs = xs @ suf'" "length xs < length pre" by auto
        with first show ?thesis by blast
      qed
      with p have "c # cs = (c # pre) @ suf \<and> m suf = Some r
        \<and> (\<forall>pre' suf'. c # cs = pre' @ suf' \<and> length pre' < length (c # pre)
              \<longrightarrow> m suf' = None)"
        by simp
      then show "\<exists>pre suf. c # cs = pre @ suf \<and> m suf = Some r
        \<and> (\<forall>pre' suf'. c # cs = pre' @ suf' \<and> length pre' < length pre \<longrightarrow> m suf' = None)"
        by blast
    next
      assume "\<exists>pre suf. c # cs = pre @ suf \<and> m suf = Some r
        \<and> (\<forall>pre' suf'. c # cs = pre' @ suf' \<and> length pre' < length pre \<longrightarrow> m suf' = None)"
      then obtain pre suf where p: "c # cs = pre @ suf" "m suf = Some r"
        and first: "\<forall>pre' suf'. c # cs = pre' @ suf' \<and> length pre' < length pre
                      \<longrightarrow> m suf' = None"
        by blast
      from p None obtain xs where pre: "pre = c # xs" and cs: "cs = xs @ suf"
        by (cases pre) auto
      have "m suf' = None" if a: "cs = pre' @ suf'" "length pre' < length xs" for pre' suf'
      proof -
        from a pre have "c # cs = (c # pre') @ suf'" "length (c # pre') < length pre"
          by auto
        with first show ?thesis by blast
      qed
      with cs p show "\<exists>pre suf. cs = pre @ suf \<and> m suf = Some r
        \<and> (\<forall>pre' suf'. cs = pre' @ suf' \<and> length pre' < length pre \<longrightarrow> m suf' = None)"
        by blast
    qed
    finally show ?thesis .
  qed
qed

lemma re_search_None_iff:
  "re_search m s = None \<longleftrightarrow> (\<forall>pre suf. s = pre @ suf \<longrightarrow> m suf = None)"
proof (induction s)
  case Nil
  then show ?case by auto
next
  case (Cons c cs)
  show ?case
  proof (cases "m (c # cs)")
    case (Some x)
    then have "re_search m (c # cs) \<noteq> None" by simp
    moreover have "\<not> (\<forall>pre suf. c # cs = pre @ suf \<longrightarrow> m suf = None)"
      using Some by (metis append_Nil option.distinct(1))
    ultimately show ?thesis by blast
  next
    case None
    have "(\<forall>pre suf. c # cs = pre @ suf \<longrightarrow> m suf = None)
          \<longleftrightarrow> (\<forall>pre suf. cs = pre @ suf \<longrightarrow> m suf = None)"
    proof
      assume a: "\<forall>pre suf. c # cs = pre @ suf \<longrightarrow> m suf = None"
      show "\<forall>pre suf. cs = pre @ suf \<longrightarrow> m suf = None"
      proof (intro allI impI)
        fix pre suf assume "cs = pre @ suf"
        then have "c # cs = (c # pre) @ suf" by simp
        with a show "m suf = None" by blast
      qed
    next
      assume a: "\<forall>pre suf. cs = pre @ suf \<longrightarrow> m suf = None"
      show "\<forall>pre suf. c # cs = pre @ suf \<longrightarrow> m suf = None"
      proof (intro allI impI)
        fix pre suf assume b: "c # cs = pre @ suf"
        show "m suf = None"
        proof (cases pre)
          case Nil
          with b None show ?thesis by simp
        next
          case (Cons x xs)
          with b have "cs = xs @ suf" by simp
          with a show ?thesis by blast
        qed
      qed
    qed
    with None Cons.IH show ?thesis by simp
  qed
qed

lemma digits_exactly_iff:
  "digits_exactly n s = Some g \<longleftrightarrow>
   (\<exists>post. s = g @ post \<and> length g = n \<and> list_all is_digit g)"
proof
  assume "digits_exactly n s = Some g"
  then have "n \<le> length s" "list_all is_digit (take n s)" "g = take n s"
    by (auto simp: digits_exactly_def split: if_splits)
  then have "s = g @ drop n s \<and> length g = n \<and> list_all is_digit g"
    by simp
  then show "\<exists>post. s = g @ post \<and> length g = n \<and> list_all is_digit g"
    by blast
next
  assume "\<exists>post. s = g @ post \<and> length g = n \<and> list_all is_digit g"
  then show "digits_exactly n s = Some g"
    by (auto simp: digits_exactly_def)
qed

lemma occurs_ci_sublist: "occurs_ci p text \<longleftrightarrow> sublist (str_lower p) (str_lower text)"
proof
  assume "occurs_ci p text"
  then obtain pre mid post where "text = pre @ mid @ post" "str_lower mid = str_lower p"
    by (auto simp: occurs_ci_def)
  then have "str_lower text = str_lower pre @ str_lower p @ str_lower post"
    by simp
  then show "sublist (str_lower p) (str_lower text)"
    by (auto simp: sublist_def)
next
  assume "sublist (str_lower p) (str_lower text)"
  then obtain ps ss where "map lower_char text = ps @ str_lower p @ ss"
    by (auto simp: sublist_def str_lower_def)
  then obtain pre rest where t: "text = pre @ rest"
    and "str_lower p @ ss = map lower_char rest"
    by (auto simp: map_eq_append_conv)
  then obtain mid post where "rest = mid @ post" "str_lower p = map lower_char mid"
    by (auto simp: append_eq_map_conv)
  with t have "text = pre @ mid @ post \<and> str_lower mid = str_lower p"
    by (simp add: str_lower_def)
  then show "occurs_ci p text"
    unfolding occurs_ci_def by blast
qed

lemma lower_char_digit: "is_digit (lower_char c) \<Longrightarrow> lower_char c = c"
proof (cases c)
  case (Char b0 b1 b2 b3 b4 b5 b6 b7)
  assume "is_digit (lower_char c)"
  then show ?thesis
    unfolding Char lower_char_Char
    by (auto simp: is_digit_def split: if_splits)
qed

lemma str_lower_digits:
  "str_lower mid = ds \<Longrightarrow> list_all is_digit ds \<Longrightarrow> mid = ds"
proof (induction mid arbitrary: ds)
  case Nil
  then show ?case by (simp add: str_lower_def)
next
  case (Cons c cs)
  then obtain d ds' where ds: "ds = d # ds'" "lower_char c = d" "str_lower cs = ds'"
    by (auto simp: str_lower_def)
  with Cons.prems have dig: "is_digit (lower_char c)" and rest: "list_all is_digit ds'"
    by auto
  from dig have "lower_char c = c" by (rule lower_char_digit)
  moreover from ds rest have "cs = ds'" by (intro Cons.IH)
  ultimately show ?case using ds by simp
qed

lemma sublist_digits_lower:
  assumes "list_all is_digit ds"
  shows "sublist ds (str_lower text) \<longleftrightarrow> sublist ds text"
proof -
  have lower_ds: "str_lower ds = ds"
    using assms
    by (induction ds) (auto simp: str_lower_def lower_char_def is_digit_def)
  have "sublist ds (str_lower text) \<longleftrightarrow> occurs_ci ds text"
    by (simp add: occurs_ci_sublist lower_ds)
  also have "\<dots> \<longleftrightarrow> sublist ds text"
  proof
    assume "occurs_ci ds text"
    then obtain pre mid post where t: "text = pre @ mid @ post" and "str_lower mid = ds"
      by (auto simp: occurs_ci_def lower_ds)
    with assms have "mid = ds" by (rule_tac str_lower_digits)
    with t show "sublist ds text" by (auto simp: sublist_def)
  next
    assume "sublist ds text"
    then show "occurs_ci ds text"
      by (auto simp: sublist_def occurs_ci_def)
  qed
  finally show ?thesis .
qed

lemma dict_get_form_info:
  "application_number_of text = Some a \<Longrightarrow>
   dict_get (form_info_of_text text) ''application_number'' = Some a
   \<and> dict_get (form_info_of_text text) ''form_type'' = Some (form_type_of text)
   \<and> dict_get (form_info_of_text text) ''billed_entity_name'' = Some (billed_entity_name_of text)"
  by (auto simp: form_info_of_text_def dict_get_def Let_def)

lemma form_info_empty_iff: "form_info_of_text text = [] \<longleftrightarrow> application_number_of text = None"
  by (cases "application_number_of text") (auto simp: form_info_of_text_def Let_def)

text \<open>
  C7. The form type is \<open>471\<close> when the text contains \<open>form 471\<close> in any case or the
  digits \<open>471\<close>; otherwise \<open>470\<close> when it contains \<open>form 470\<close> in any case or the digits
  \<open>470\<close>; otherwise \<open>unknown\<close>. A text with both \<open>471\<close> and \<open>470\<close> is a 471. Every
  record that is not empty carries this form type.
\<close>

theorem form_type_classification:
  "form_type_of text =
     (if occurs_ci ''form 471'' text \<or> sublist ''471'' text then ''471''
      else if occurs_ci ''form 470'' text \<or> sublist ''470'' text then ''470''
      else ''unknown'')
   \<and> (sublist ''471'' text \<and> sublist ''470'' text \<longrightarrow> form_type_of text = ''471'')
   \<and> (form_info_of_text text \<noteq> []
        \<longrightarrow> dict_get (form_info_of_text text) ''form_type'' = Some (form_type_of text))"
proof -
  have l1: "str_lower ''form 471'' = ''form 471''" and l0: "str_lower ''form 470'' = ''form 470''"
    by (simp_all add: str_lower_def lower_char_Char)
  have d1: "sublist ''471'' (str_lower text) \<longleftrightarrow> sublist ''471'' text"
    and d0: "sublist ''470'' (str_lower text) \<longleftrightarrow> sublist ''470'' text"
    by (rule sublist_digits_lower, simp add: is_digit_def)+
  have c1: "sublist ''form 471'' (str_lower text) \<longleftrightarrow> occurs_ci ''form 471'' text"
    and c0: "sublist ''form 470'' (str_lower text) \<longleftrightarrow> occurs_ci ''form 470'' text"
    by (simp_all add: occurs_ci_sublist l1 l0)
  have eq: "form_type_of text =
     (if occurs_ci ''form 471'' text \<or> sublist ''471'' text then ''471''
      else if occurs_ci ''form 470'' text \<or> sublist ''470'' text then ''470''
      else ''unknown'')"
    unfolding form_type_of_def contains_sublist c1 c0 d1 d0 ..
  have rec: "dict_get (form_info_of_text text) ''form_type'' = Some (form_type_of text)"
    if "form_info_of_text text \<noteq> []"
  proof -
    from that obtain a where "application_number_of text = Some a"
      by (auto simp: form_info_empty_iff)
    then show ?thesis by (simp add: dict_get_form_info)
  qed
  from eq rec show ?thesis by simp
qed

text \<open>
  A Form 471 that names its application, a text that mentions both forms, a Form 470, and
  a text with neither number.
\<close>

theorem form_type_classification_witness:
  "form_type_of ''Form 471 Application Number: 251043327'' = ''471''
   \<and> dict_get (form_info_of_text ''Form 471 Application Number: 251043327'') ''form_type''
     = Some ''471''
   \<and> dict_get (form_info_of_text ''Form 471 Application Number: 251043327'')
       ''application_number'' = Some ''251043327''
   \<and> form_type_of ''FORM 470 no. 4711'' = ''471''
   \<and> form_type_of ''FCC Form 470'' = ''470''
   \<and> form_type_of ''invoice 47'' = ''unknown''"
proof -
  have fi: "form_info_of_text ''Form 471 Application Number: 251043327''
            = [(''application_number'', ''251043327''),
               (''form_type'', ''471''),
               (''billed_entity_name'', ''Unknown'')]"
    by code_simp
  have s1: "sublist ''471'' ''FORM 470 no. 4711''" and s0: "sublist ''470'' ''FORM 470 no. 4711''"
    by code_simp+
  have a: "form_type_of ''FORM 470 no. 4711'' = ''471''"
    using form_type_classification [of "''FORM 470 no. 4711''"] s1 s0 by blast
  have b: "dict_get (form_info_of_text ''Form 471 Application Number: 251043327'') ''form_type''
           = Some (form_type_of ''Form 471 Application Number: 251043327'')"
    using form_type_classification [of "''Form 471 Application Number: 251043327''"] fi
    by simp
  have c: "form_type_of ''Form 471 Application Number: 251043327'' = ''471''"
    using b by (simp add: fi dict_get_def)
  have d: "form_type_of ''FCC Form 470'' = ''470''" and e: "form_type_of ''invoice 47'' = ''unknown''"
    by code_simp+
  from a b c d e show ?thesis
    by (simp add: fi dict_get_def)
qed

lemma re_search_SomeD: "re_search m s = Some r \<Longrightarrow> \<exists>pre suf. s = pre @ suf \<and> m suf = Some r"
  unfolding re_search_Some_iff by blast

lemma re_search_leftmost:
  assumes "\<And>suf g. m suf = Some g \<longleftrightarrow> P suf g"
  shows "re_search m text = Some g \<longleftrightarrow> leftmost P text g"
proof -
  have none: "m suf = None \<longleftrightarrow> (\<forall>g. \<not> P suf g)" for suf
    using assms [of suf] by (cases "m suf") auto
  show ?thesis
    unfolding re_search_Some_iff leftmost_def assms none by blast
qed

lemma re_search_nowhere:
  assumes "\<And>suf g. m suf = Some g \<longleftrightarrow> P suf g"
  shows "re_search m text = None \<longleftrightarrow> nowhere P text"
proof -
  have none: "m suf = None \<longleftrightarrow> (\<forall>g. \<not> P suf g)" for suf
    using assms [of suf] by (cases "m suf") auto
  show ?thesis
    unfolding re_search_None_iff nowhere_def none by blast
qed

lemma re_application_number_iff: "re_application_number suf = Some g \<longleftrightarrow> label_digits_at suf g"
proof -
  have low: "str_lower ''Application Number'' = ''application number''"
    by (simp add: str_lower_def lower_char_Char)
  have "re_application_number suf = Some g \<longleftrightarrow>
        (\<exists>r. lit_ci ''Application Number'' suf = Some r \<and> digits_after_sep r = Some g)"
    by (auto simp: re_application_number_def split: option.splits)
  also have "\<dots> \<longleftrightarrow> label_digits_at suf g"
    unfolding lit_ci_iff digits_after_sep_iff label_digits_at_def low by blast
  finally show ?thesis .
qed

lemma digits_exactly_nine_iff: "digits_exactly 9 suf = Some g \<longleftrightarrow> nine_digits_at suf g"
  by (simp add: digits_exactly_iff nine_digits_at_def)

lemma application_number_digits:
  assumes "application_number_of text = Some a"
  shows "a \<noteq> [] \<and> list_all is_digit a"
proof (cases "re_search re_application_number text")
  case (Some g)
  with assms have "re_search re_application_number text = Some a"
    by (simp add: application_number_of_def)
  then have "\<exists>pre suf. text = pre @ suf \<and> re_application_number suf = Some a"
    by (rule re_search_SomeD)
  then obtain suf where "re_application_number suf = Some a"
    by blast
  then have "label_digits_at suf a"
    by (simp only: re_application_number_iff)
  then show ?thesis
    unfolding label_digits_at_def by blast
next
  case None
  with assms have "re_search (digits_exactly 9) text = Some a"
    by (simp add: application_number_of_def)
  then have "\<exists>pre suf. text = pre @ suf \<and> digits_exactly 9 suf = Some a"
    by (rule re_search_SomeD)
  then obtain suf where "digits_exactly 9 suf = Some a"
    by blast
  then have "nine_digits_at suf a"
    by (simp only: digits_exactly_nine_iff)
  then have "length a = 9" and "list_all is_digit a"
    unfolding nine_digits_at_def by blast+
  then show ?thesis by auto
qed

lemma billed_entity_label:
  assumes "re_search re_billed_entity_name text = Some g"
  shows "occurs_ci ''Billed Entity Name'' text"
proof -
  from assms have "\<exists>pre suf. text = pre @ suf \<and> re_billed_entity_name suf = Some g"
    by (rule re_search_SomeD)
  then obtain pre suf where t: "text = pre @ suf" and "re_billed_entity_name suf = Some g"
    by blast
  then obtain r where "lit_ci ''Billed Entity Name'' suf = Some r"
    by (auto simp: re_billed_entity_name_def split: option.splits)
  then obtain lab where "suf = lab @ r" "str_lower lab = str_lower ''Billed Entity Name''"
    unfolding lit_ci_iff by blast
  with t show ?thesis
    unfolding occurs_ci_def by blast
qed

lemma billed_entity_unknown:
  "\<not> occurs_ci ''Billed Entity Name'' text \<Longrightarrow> billed_entity_name_of text = ''Unknown''"
  using billed_entity_label [of "text"]
  by (cases "re_search re_billed_entity_name text") (auto simp: billed_entity_name_of_def)

lemma form_type_values: "form_type_of text \<in> {''471'', ''470'', ''unknown''}"
  by (simp add: form_type_of_def)

lemma form_info_fields:
  assumes "form_info_of_text text \<noteq> []"
  shows "\<exists>a b. dict_get (form_info_of_text text) ''application_number'' = Some a
           \<and> a \<noteq> [] \<and> list_all is_digit a
           \<and> dict_get (form_info_of_text text) ''form_type''
               \<in> {Some ''471'', Some ''470'', Some ''unknown''}
           \<and> dict_get (form_info_of_text text) ''billed_entity_name'' = Some b"
proof -
  from assms obtain a where a: "application_number_of text = Some a"
    by (auto simp: form_info_empty_iff)
  then have "a \<noteq> [] \<and> list_all is_digit a"
    by (rule application_number_digits)
  moreover note dict_get_form_info [OF a] form_type_values [of "text"]
  ultimately show ?thesis by auto
qed

lemma extract_form_info_cases:
  "extract_form_info reader fs path = []
   \<or> (\<exists>bytes pages. fs path = Some bytes \<and> reader bytes = Returns pages
        \<and> extract_form_info reader fs path = form_info_of_text (pages_text pages))"
  by (auto simp: extract_form_info_def split: option.splits attempt.splits)

text \<open>
  C5. Whatever the file system and the PDF library give, the record returned by the
  extraction is either empty or has the three keys \<open>application_number\<close> (a run of
  digits, not empty), \<open>form_type\<close> (\<open>471\<close>, \<open>470\<close> or \<open>unknown\<close>) and
  \<open>billed_entity_name\<close>. When the text does not contain the label \<open>Billed Entity Name\<close>
  in any case, the name of a record that is not empty is \<open>Unknown\<close>.
\<close>

theorem extract_form_info_record:
  "(extract_form_info reader fs path = []
    \<or> (\<exists>a b. dict_get (extract_form_info reader fs path) ''application_number'' = Some a
          \<and> a \<noteq> [] \<and> list_all is_digit a
          \<and> dict_get (extract_form_info reader fs path) ''form_type''
              \<in> {Some ''471'', Some ''470'', Some ''unknown''}
          \<and> dict_get (extract_form_info reader fs path) ''billed_entity_name'' = Some b))
   \<and> (fs path = Some bytes \<and> reader bytes = Returns pages
        \<and> \<not> occurs_ci ''Billed Entity Name'' (pages_text pages)
        \<and> extract_form_info reader fs path \<noteq> []
       \<longrightarrow> dict_get (extract_form_info reader fs path) ''billed_entity_name''
            = Some ''Unknown'')"
proof (intro conjI impI)
  show "extract_form_info reader fs path = []
    \<or> (\<exists>a b. dict_get (extract_form_info reader fs path) ''application_number'' = Some a
          \<and> a \<noteq> [] \<and> list_all is_digit a
          \<and> dict_get (extract_form_info reader fs path) ''form_type''
              \<in> {Some ''471'', Some ''470'', Some ''unknown''}
          \<and> dict_get (extract_form_info reader fs path) ''billed_entity_name'' = Some b)"
    using extract_form_info_cases [of reader fs path] form_info_fields
    by metis
next
  assume a: "fs path = Some bytes \<and> reader bytes = Returns pages
        \<and> \<not> occurs_ci ''Billed Entity Name'' (pages_text pages)
        \<and> extract_form_info reader fs path \<noteq> []"
  then have eq: "extract_form_info reader fs path = form_info_of_text (pages_text pages)"
    by (simp add: extract_form_info_def)
  with a obtain n where "application_number_of (pages_text pages) = Some n"
    by (auto simp: form_info_empty_iff)
  then have "dict_get (form_info_of_text (pages_text pages)) ''billed_entity_name''
             = Some (billed_entity_name_of (pages_text pages))"
    by (simp add: dict_get_form_info)
  with a eq show "dict_get (extract_form_info reader fs path) ''billed_entity_name''
                  = Some ''Unknown''"
    by (simp add: billed_entity_unknown)
qed

text \<open>
  A stored document whose only page reads \<open>Form 471 Application Number: 251043327\<close>: the
  record has the three keys, and the name is \<open>Unknown\<close>.
\<close>

theorem extract_form_info_record_witness:
  "extract_form_info (\<lambda>bytes. Returns [Some bytes])
      [''/tmp/agno_pdfs/1_y.pdf'' \<mapsto> ''Form 471 Application Number: 251043327'']
      ''/tmp/agno_pdfs/1_y.pdf''
     = [(''application_number'', ''251043327''),
        (''form_type'', ''471''),
        (''billed_entity_name'', ''Unknown'')]
   \<and> dict_get
        (extract_form_info (\<lambda>bytes. Returns [Some bytes])
           [''/tmp/agno_pdfs/1_y.pdf'' \<mapsto> ''Form 471 Application Number: 251043327'']
           ''/tmp/agno_pdfs/1_y.pdf'')
        ''billed_entity_name'' = Some ''Unknown''"
proof -
  let ?open = "\<lambda>bytes::string. Returns [Some bytes] :: string option list attempt"
  let ?fs = "[''/tmp/agno_pdfs/1_y.pdf'' \<mapsto> ''Form 471 Application Number: 251043327'']"
  let ?text = "''Form 471 Application Number: 251043327''"
  have fi: "form_info_of_text ?text
            = [(''application_number'', ''251043327''),
               (''form_type'', ''471''),
               (''billed_entity_name'', ''Unknown'')]"
    by code_simp
  have pt: "pages_text [Some ?text] = ?text"
    by (simp add: pages_text_def)
  have ex: "extract_form_info ?open ?fs ''/tmp/agno_pdfs/1_y.pdf''
            = [(''application_number'', ''251043327''),
               (''form_type'', ''471''),
               (''billed_entity_name'', ''Unknown'')]"
    by (simp add: extract_form_info_def pt fi)
  have "\<not> sublist (str_lower ''Billed Entity Name'') (str_lower ?text)"
    by code_simp
  then have no: "\<not> occurs_ci ''Billed Entity Name'' (pages_text [Some ?text])"
    by (simp add: occurs_ci_sublist pt)
  have "dict_get (extract_form_info ?open ?fs ''/tmp/agno_pdfs/1_y.pdf'') ''billed_entity_name''
        = Some ''Unknown''"
    using extract_form_info_record [of ?open ?fs "''/tmp/agno_pdfs/1_y.pdf''" ?text "[Some ?text]"]
      no ex
    by simp
  with ex show ?thesis by simp
qed

lemma label_search_leftmost:
  "re_search re_application_number text = Some g \<longleftrightarrow> leftmost label_digits_at text g"
  by (rule re_search_leftmost) (rule re_application_number_iff)

lemma label_search_nowhere:
  "re_search re_application_number text = None \<longleftrightarrow> nowhere label_digits_at text"
  by (rule re_search_nowhere) (rule re_application_number_iff)

lemma nine_search_leftmost:
  "re_search (digits_exactly 9) text = Some g \<longleftrightarrow> leftmost nine_digits_at text g"
  by (rule re_search_leftmost) (rule digits_exactly_nine_iff)

lemma nine_search_nowhere:
  "re_search (digits_exactly 9) text = None \<longleftrightarrow> nowhere nine_digits_at text"
  by (rule re_search_nowhere) (rule digits_exactly_nine_iff)

lemma application_number_Some_iff:
  "application_number_of text = Some g \<longleftrightarrow>
   leftmost label_digits_at text g
   \<or> (nowhere label_digits_at text \<and> leftmost nine_digits_at text g)"
proof (cases "re_search re_application_number text")
  case None
  then have "application_number_of text = re_search (digits_exactly 9) text"
    by (simp add: application_number_of_def)
  moreover from None have "\<not> leftmost label_digits_at text g"
    by (simp add: label_search_leftmost [symmetric])
  ultimately show ?thesis
    using None by (simp add: label_search_nowhere [symmetric] nine_search_leftmost)
next
  case (Some h)
  then have "application_number_of text = Some h"
    by (simp add: application_number_of_def)
  moreover from Some have "\<not> nowhere label_digits_at text"
    by (simp add: label_search_nowhere [symmetric])
  ultimately show ?thesis
    using Some by (simp add: label_search_leftmost [symmetric])
qed

lemma application_number_None_iff:
  "application_number_of text = None \<longleftrightarrow>
   nowhere label_digits_at text \<and> nowhere nine_digits_at text"
proof -
  have "application_number_of text = None \<longleftrightarrow>
        re_search re_application_number text = None \<and> re_search (digits_exactly 9) text = None"
    by (auto simp: application_number_of_def split: option.splits)
  then show ?thesis
    by (simp only: label_search_nowhere nine_search_nowhere)
qed

text \<open>
  C6, as the code has it. The application number is the digit run after the leftmost
  match of the label \<open>Application Number\<close> (any case, then colons and whitespace, then
  digits). When the label matches nowhere, it is the leftmost nine consecutive digits of
  the text, which may be the first nine digits of a longer run. When there are no nine
  consecutive digits either, there is no application number and the record is empty.
\<close>

theorem application_number_rules:
  "(application_number_of text = Some g \<longleftrightarrow>
      leftmost label_digits_at text g
      \<or> (nowhere label_digits_at text \<and> leftmost nine_digits_at text g))
   \<and> (application_number_of text = None \<longleftrightarrow>
        nowhere label_digits_at text \<and> nowhere nine_digits_at text)
   \<and> (application_number_of text = Some g
        \<longrightarrow> dict_get (form_info_of_text text) ''application_number'' = Some g)
   \<and> (application_number_of text = None \<longrightarrow> form_info_of_text text = [])
   \<and> (fs path = Some bytes \<and> reader bytes = Returns pages
        \<longrightarrow> extract_form_info reader fs path = form_info_of_text (pages_text pages))"
  using application_number_Some_iff [of "text" g] application_number_None_iff [of "text"]
    dict_get_form_info [of "text" g] form_info_empty_iff [of "text"]
  by (auto simp: extract_form_info_def)

text \<open>
  A labelled number, a text whose only digits are a run of ten, and a text without
  digits.
\<close>

theorem application_number_rules_witness:
  "leftmost label_digits_at ''Application number:  42 x'' ''42''
   \<and> dict_get (form_info_of_text ''Application number:  42 x'') ''application_number''
     = Some ''42''
   \<and> nowhere label_digits_at ''id 1234567890''
   \<and> leftmost nine_digits_at ''id 1234567890'' ''123456789''
   \<and> dict_get (form_info_of_text ''id 1234567890'') ''application_number''
     = Some ''123456789''
   \<and> nowhere label_digits_at ''no digits'' \<and> nowhere nine_digits_at ''no digits''
   \<and> form_info_of_text ''no digits'' = []
   \<and> extract_form_info (\<lambda>bytes. Returns [Some bytes, None]) [''p'' \<mapsto> ''no digits''] ''p'' = []"
proof -
  have a: "application_number_of ''Application number:  42 x'' = Some ''42''"
    and a': "re_search re_application_number ''Application number:  42 x'' = Some ''42''"
    and b: "application_number_of ''id 1234567890'' = Some ''123456789''"
    and b': "re_search re_application_number ''id 1234567890'' = None"
    and c: "application_number_of ''no digits'' = None"
    by code_simp+
  have a1: "leftmost label_digits_at ''Application number:  42 x'' ''42''"
    using a' by (simp only: label_search_leftmost)
  have a2: "dict_get (form_info_of_text ''Application number:  42 x'') ''application_number''
            = Some ''42''"
    using application_number_rules [of "''Application number:  42 x''" "''42''"] a by blast
  have b1: "nowhere label_digits_at ''id 1234567890''"
    using b' by (simp only: label_search_nowhere)
  have "re_search re_application_number ''id 1234567890'' \<noteq> Some ''123456789''"
    by (simp only: b') simp
  then have "\<not> leftmost label_digits_at ''id 1234567890'' ''123456789''"
    using label_search_leftmost [of "''id 1234567890''" "''123456789''"] by blast
  then have b2: "leftmost nine_digits_at ''id 1234567890'' ''123456789''"
    using application_number_rules [of "''id 1234567890''" "''123456789''"] b by blast
  have b3: "dict_get (form_info_of_text ''id 1234567890'') ''application_number''
            = Some ''123456789''"
    using application_number_rules [of "''id 1234567890''" "''123456789''"] b by blast
  have c1: "nowhere label_digits_at ''no digits'' \<and> nowhere nine_digits_at ''no digits''"
    using application_number_rules [of "''no digits''"] c by blast
  have c2: "form_info_of_text ''no digits'' = []"
    using application_number_rules [of "''no digits''"] c by blast
  have "pages_text [Some ''no digits'', None] = ''no digits''"
    by (simp add: pages_text_def)
  then have c3: "extract_form_info (\<lambda>bytes. Returns [Some bytes, None])
                   [''p'' \<mapsto> ''no digits''] ''p'' = []"
    using application_number_rules
      [of "''no digits''" _ "[''p'' \<mapsto> ''no digits'']" "''p''" "''no digits''"
          "\<lambda>bytes. Returns [Some bytes, None]" "[Some ''no digits'', None]"] c2
    by simp
  from a1 a2 b1 b2 b3 c1 c2 c3 show ?thesis by blast
qed

text \<open>
  C6 as the specification words it fails on a run of ten digits: the text has no
  standalone run of nine digits and no label, so the claim has the extraction abort, but
  the code takes the first nine digits as the application number.
\<close>

theorem application_number_fallback_counterexample:
  "re_search re_application_number ''1234567890'' = None
   \<and> spec_standalone_run 9 ''1234567890'' = None
   \<and> spec_application_number ''1234567890'' = None
   \<and> application_number_of ''1234567890'' = Some ''123456789''
   \<and> form_info_of_text ''1234567890''
     = [(''application_number'', ''123456789''),
        (''form_type'', ''unknown''),
        (''billed_entity_name'', ''Unknown'')]"
proof -
  have "re_search re_application_number ''1234567890'' = None"
    and "spec_standalone_run 9 ''1234567890'' = None"
    and "spec_application_number ''1234567890'' = None"
    and "application_number_of ''1234567890'' = Some ''123456789''"
    and "form_info_of_text ''1234567890''
     = [(''application_number'', ''123456789''),
        (''form_type'', ''unknown''),
        (''billed_entity_name'', ''Unknown'')]"
    by code_simp+
  then show ?thesis by blast
qed

lemma fetch_to_file_None_iff: "fetch_to_file w fs url file_name = None \<longleftrightarrow> fetch_fails w url file_name"
  by (auto simp: fetch_to_file_def fetch_fails_def Let_def split: attempt.splits)

lemma fetch_to_file_path:
  "fetch_to_file w fs url file_name = Some (p, fs') \<Longrightarrow> p = path_join (download_dir w) file_name"
  by (auto simp: fetch_to_file_def Let_def split: attempt.splits if_splits)

lemma fetch_attachment_None_iff:
  "fetch_attachment w fs task_id a = None \<longleftrightarrow>
   \<not> is_pdf_attachment a \<or> attachment_fails w task_id a"
  by (auto simp: fetch_attachment_def attachment_fails_def fetch_to_file_None_iff
           split: option.splits)

lemma fetch_attachment_path:
  "fetch_attachment w fs task_id a = Some (p, fs') \<Longrightarrow>
   p = path_join (download_dir w) (task_id @ ''_'' @ att_name a)"
  by (auto simp: fetch_attachment_def split: option.splits if_splits dest: fetch_to_file_path)

lemma download_attachments_skip:
  "list_all (\<lambda>x. fetch_attachment w fs task_id x = None) pre \<Longrightarrow>
   download_attachments w fs task_id (pre @ rest) = download_attachments w fs task_id rest"
  by (induction pre) auto

lemma download_attachments_None_iff:
  "download_attachments w fs task_id atts = None \<longleftrightarrow>
   list_all (\<lambda>x. fetch_attachment w fs task_id x = None) atts"
  by (induction atts) (auto split: option.splits)

lemma first_pdf_url_empty: "first_pdf_url [] = None"
  by (simp add: first_pdf_url_def matched_url_def re_pdf_url_def)

lemma download_from_notes_eq:
  "download_from_notes w fs task_id notes =
     (case first_pdf_url notes of
        None \<Rightarrow> None
      | Some u \<Rightarrow> fetch_to_file w fs u (task_id @ ''_'' @ last_segment u))"
  by (cases "notes") (simp_all add: download_from_notes_def first_pdf_url_empty)

text \<open>
  C10. A PDF attachment whose fetch fails (no download URL, an exception, a status other
  than 200) yields nothing and the loop goes on with the remaining attachments; when no
  attachment yields a document the locator turns to the notes; and it returns \<open>None\<close>
  exactly when every attachment yields nothing and the notes yield nothing, which is also
  what it returns for a task with no attachment and no URL.
\<close>

theorem failed_fetch_not_terminal:
  assumes "tasks_find_by_id w task_id = Returns t"
  shows "(is_pdf_attachment a
            \<and> (att_download_url a = None \<or> att_download_url a = Some []
                \<or> (att_download_url a = Some u
                    \<and> (requests_get w (u, []) = Raises e
                        \<or> (requests_get w (u, []) = Returns r \<and> status_code r \<noteq> 200))))
          \<longrightarrow> fetch_attachment w fs task_id a = None)
       \<and> (fetch_attachment w fs task_id a = None
          \<longrightarrow> download_attachments w fs task_id (a # rest)
              = download_attachments w fs task_id rest)
       \<and> (tk_attachments t = pre @ b # rest
            \<and> list_all (\<lambda>x. fetch_attachment w fs task_id x = None) pre
            \<and> fetch_attachment w fs task_id b = Some (p, fs')
          \<longrightarrow> download_pdf_from_task w fs task_id = (Some p, fs'))
       \<and> (list_all (\<lambda>x. fetch_attachment w fs task_id x = None) (tk_attachments t)
          \<longrightarrow> download_pdf_from_task w fs task_id
              = (case download_from_notes w fs task_id (tk_notes t) of
                   Some (p, fs') \<Rightarrow> (Some p, fs')
                 | None \<Rightarrow> (None, fs)))
       \<and> (fst (download_pdf_from_task w fs task_id) = None
          \<longleftrightarrow> list_all (\<lambda>x. fetch_attachment w fs task_id x = None) (tk_attachments t)
              \<and> download_from_notes w fs task_id (tk_notes t) = None)
       \<and> (tk_attachments t = [] \<and> first_pdf_url (tk_notes t) = None
          \<longrightarrow> download_pdf_from_task w fs task_id = (None, fs))"
proof (intro conjI impI)
  assume "is_pdf_attachment a
            \<and> (att_download_url a = None \<or> att_download_url a = Some []
                \<or> (att_download_url a = Some u
                    \<and> (requests_get w (u, []) = Raises e
                        \<or> (requests_get w (u, []) = Returns r \<and> status_code r \<noteq> 200))))"
  then show "fetch_attachment w fs task_id a = None"
    by (auto simp: fetch_attachment_def fetch_to_file_def)
next
  assume "fetch_attachment w fs task_id a = None"
  then show "download_attachments w fs task_id (a # rest)
              = download_attachments w fs task_id rest"
    by simp
next
  assume a: "tk_attachments t = pre @ b # rest
            \<and> list_all (\<lambda>x. fetch_attachment w fs task_id x = None) pre
            \<and> fetch_attachment w fs task_id b = Some (p, fs')"
  then have "download_attachments w fs task_id (tk_attachments t) = Some (p, fs')"
    by (simp add: download_attachments_skip)
  with assms show "download_pdf_from_task w fs task_id = (Some p, fs')"
    by (simp add: download_pdf_from_task_def)
next
  assume "list_all (\<lambda>x. fetch_attachment w fs task_id x = None) (tk_attachments t)"
  then have "download_attachments w fs task_id (tk_attachments t) = None"
    by (simp add: download_attachments_None_iff)
  with assms show "download_pdf_from_task w fs task_id
              = (case download_from_notes w fs task_id (tk_notes t) of
                   Some (p, fs') \<Rightarrow> (Some p, fs')
                 | None \<Rightarrow> (None, fs))"
    by (simp add: download_pdf_from_task_def)
next
  show "fst (download_pdf_from_task w fs task_id) = None
          \<longleftrightarrow> list_all (\<lambda>x. fetch_attachment w fs task_id x = None) (tk_attachments t)
              \<and> download_from_notes w fs task_id (tk_notes t) = None"
    using assms
    by (cases "download_attachments w fs task_id (tk_attachments t)";
        cases "download_from_notes w fs task_id (tk_notes t)")
       (auto simp: download_pdf_from_task_def download_attachments_None_iff [symmetric])
next
  assume "tk_attachments t = [] \<and> first_pdf_url (tk_notes t) = None"
  with assms show "download_pdf_from_task w fs task_id = (None, fs)"
    by (simp add: download_pdf_from_task_def download_from_notes_eq)
qed

lemma fetch_to_file_Some:
  "\<not> fetch_fails w url file_name \<Longrightarrow>
   \<exists>fs'. fetch_to_file w fs url file_name = Some (path_join (download_dir w) file_name, fs')"
  by (auto simp: fetch_to_file_def fetch_fails_def Let_def split: attempt.splits)

lemma fetch_attachment_Some:
  "is_pdf_attachment a \<Longrightarrow> \<not> attachment_fails w task_id a \<Longrightarrow>
   \<exists>fs'. fetch_attachment w fs task_id a
         = Some (path_join (download_dir w) (task_id @ ''_'' @ att_name a), fs')"
  by (auto simp: fetch_attachment_def attachment_fails_def split: option.splits
           intro: fetch_to_file_Some)

lemma locator_task1:
  "tasks_find_by_id locator_world ''1''
   = Returns (attachment_task ''1'' [named_attachment ''Form.PDF'' ''http://files/a'']
                ''http://x/y.pdf'')"
  and locator_task2: "tasks_find_by_id locator_world ''2'' = Returns (bare_task ''2'')"
  and locator_task4:
  "tasks_find_by_id locator_world ''4''
   = Returns (attachment_task ''4''
                [named_attachment ''Form.PDF'' ''http://files/a'',
                 named_attachment ''notes.txt'' ''http://files/t'',
                 named_attachment ''b.pdf'' ''http://files/b'']
                ''http://x/y.pdf'')"
  by code_simp+

text \<open>
  In the locator world: the attachment of task 1 answers 404, so its fetch yields nothing
  and the document comes from the notes; task 4 gets its third attachment after the first
  failed and the second was no PDF; task 2 has no source and gets \<open>None\<close>.
\<close>

theorem failed_fetch_not_terminal_witness:
  "fetch_attachment locator_world Map.empty ''1'' (named_attachment ''Form.PDF'' ''http://files/a'')
     = None
   \<and> fst (download_pdf_from_task locator_world Map.empty ''1'') = Some ''/tmp/agno_pdfs/1_y.pdf''
   \<and> fst (download_pdf_from_task locator_world Map.empty ''4'') = Some ''/tmp/agno_pdfs/4_b.pdf''
   \<and> download_pdf_from_task locator_world Map.empty ''2'' = (None, Map.empty)"
proof -
  let ?a = "named_attachment ''Form.PDF'' ''http://files/a''"
  let ?t = "named_attachment ''notes.txt'' ''http://files/t''"
  let ?b = "named_attachment ''b.pdf'' ''http://files/b''"
  have pdf: "is_pdf_attachment ?a" and url: "att_download_url ?a = Some ''http://files/a''"
    and req: "requests_get locator_world (''http://files/a'', [])
              = Returns \<lparr>status_code = 404, content = [], json = Raises ''not JSON''\<rparr>"
    by code_simp+
  have a1: "fetch_attachment locator_world fs ''1'' ?a = None" for fs
    using failed_fetch_not_terminal [OF locator_task1, where a = ?a and u = "''http://files/a''"
        and r = "\<lparr>status_code = 404, content = [], json = Raises ''not JSON''\<rparr>"
        and fs = fs]
      pdf url req
    by simp
  have a4: "fetch_attachment locator_world fs ''4'' ?a = None" for fs
    using failed_fetch_not_terminal [OF locator_task4, where a = ?a and u = "''http://files/a''"
        and r = "\<lparr>status_code = 404, content = [], json = Raises ''not JSON''\<rparr>"
        and fs = fs]
      pdf url req
    by simp
  have "\<not> is_pdf_attachment ?t"
    by code_simp
  then have t4: "fetch_attachment locator_world fs ''4'' ?t = None" for fs
    by (simp add: fetch_attachment_def)
  have "is_pdf_attachment ?b" and "\<not> attachment_fails locator_world ''4'' ?b"
    and pb: "path_join (download_dir locator_world) (''4'' @ ''_'' @ att_name ?b)
             = ''/tmp/agno_pdfs/4_b.pdf''"
    by code_simp+
  then obtain fs4 where
    b4: "fetch_attachment locator_world Map.empty ''4'' ?b = Some (''/tmp/agno_pdfs/4_b.pdf'', fs4)"
    using fetch_attachment_Some [of ?b locator_world "''4''" Map.empty] by auto
  have d4: "download_pdf_from_task locator_world Map.empty ''4''
            = (Some ''/tmp/agno_pdfs/4_b.pdf'', fs4)"
    using failed_fetch_not_terminal [OF locator_task4, where fs = Map.empty
        and pre = "[?a, ?t]" and b = ?b and rest = "[]" and p = "''/tmp/agno_pdfs/4_b.pdf''"
        and fs' = fs4]
      a4 t4 b4
    by (simp add: attachment_task_def)
  have n1: "fst (case download_from_notes locator_world Map.empty ''1''
                        (tk_notes (attachment_task ''1'' [?a] ''http://x/y.pdf'')) of
                   Some (p, fs') \<Rightarrow> (Some p, fs')
                 | None \<Rightarrow> (None, Map.empty))
            = Some ''/tmp/agno_pdfs/1_y.pdf''"
    by code_simp
  have d1: "fst (download_pdf_from_task locator_world Map.empty ''1'')
            = Some ''/tmp/agno_pdfs/1_y.pdf''"
    using failed_fetch_not_terminal [OF locator_task1, where fs = Map.empty] a1 n1
    by (simp add: attachment_task_def)
  have "first_pdf_url (tk_notes (bare_task ''2'')) = None"
    and "tk_attachments (bare_task ''2'') = []"
    by code_simp+
  then have d2: "download_pdf_from_task locator_world Map.empty ''2'' = (None, Map.empty)"
    using failed_fetch_not_terminal [OF locator_task2, where fs = Map.empty] by blast
  from a1 d1 d4 d2 show ?thesis by simp
qed

lemma download_from_notes_Some:
  assumes "first_pdf_url notes = Some u"
    and "\<not> fetch_fails w u (task_id @ ''_'' @ last_segment u)"
  shows "\<exists>fs'. download_from_notes w fs task_id notes
               = Some (path_join (download_dir w) (task_id @ ''_'' @ last_segment u), fs')"
  using assms fetch_to_file_Some [of w u "task_id @ ''_'' @ last_segment u" fs]
  by (simp add: download_from_notes_eq)

lemma download_from_notes_None:
  "first_pdf_url notes = None
   \<or> (\<exists>u. first_pdf_url notes = Some u \<and> fetch_fails w u (task_id @ ''_'' @ last_segment u))
   \<Longrightarrow> download_from_notes w fs task_id notes = None"
  by (auto simp: download_from_notes_eq fetch_to_file_None_iff)

text \<open>
  C8, as the code has it. For a task the store returns:
  \<^item> the document is the first attachment, in the order of the task, whose name ends in
    \<open>.pdf\<close> in any case and whose fetch succeeds; the attachments before it are no PDFs
    or gave nothing;
  \<^item> when no attachment gives a document, because none is a PDF or because every fetch
    failed, the document is the first PDF URL of the notes, if its fetch succeeds;
  \<^item> when no attachment gives a document and the notes have no PDF URL, or the fetch of
    that URL fails, the result is \<open>None\<close>: one value for both failures.
\<close>

theorem locator_sources:
  assumes "tasks_find_by_id w task_id = Returns t"
  shows "(tk_attachments t = pre @ a # rest
            \<and> list_all (\<lambda>x. \<not> is_pdf_attachment x \<or> attachment_fails w task_id x) pre
            \<and> is_pdf_attachment a \<and> \<not> attachment_fails w task_id a
          \<longrightarrow> fst (download_pdf_from_task w fs task_id)
              = Some (path_join (download_dir w) (task_id @ ''_'' @ att_name a)))
       \<and> (list_all (\<lambda>x. \<not> is_pdf_attachment x \<or> attachment_fails w task_id x) (tk_attachments t)
            \<and> first_pdf_url (tk_notes t) = Some u
            \<and> \<not> fetch_fails w u (task_id @ ''_'' @ last_segment u)
          \<longrightarrow> fst (download_pdf_from_task w fs task_id)
              = Some (path_join (download_dir w) (task_id @ ''_'' @ last_segment u)))
       \<and> (list_all (\<lambda>x. \<not> is_pdf_attachment x \<or> attachment_fails w task_id x) (tk_attachments t)
            \<and> (first_pdf_url (tk_notes t) = None
                \<or> (first_pdf_url (tk_notes t) = Some u
                    \<and> fetch_fails w u (task_id @ ''_'' @ last_segment u)))
          \<longrightarrow> download_pdf_from_task w fs task_id = (None, fs))"
proof (intro conjI impI)
  assume a: "tk_attachments t = pre @ a # rest
            \<and> list_all (\<lambda>x. \<not> is_pdf_attachment x \<or> attachment_fails w task_id x) pre
            \<and> is_pdf_attachment a \<and> \<not> attachment_fails w task_id a"
  then have pre: "list_all (\<lambda>x. fetch_attachment w fs task_id x = None) pre"
    by (simp add: fetch_attachment_None_iff)
  from a obtain fs' where
    "fetch_attachment w fs task_id a
     = Some (path_join (download_dir w) (task_id @ ''_'' @ att_name a), fs')"
    using fetch_attachment_Some [of a w task_id fs] by blast
  with a pre have "download_attachments w fs task_id (tk_attachments t)
     = Some (path_join (download_dir w) (task_id @ ''_'' @ att_name a), fs')"
    by (simp add: download_attachments_skip)
  with assms show "fst (download_pdf_from_task w fs task_id)
              = Some (path_join (download_dir w) (task_id @ ''_'' @ att_name a))"
    by (simp add: download_pdf_from_task_def)
next
  assume a: "list_all (\<lambda>x. \<not> is_pdf_attachment x \<or> attachment_fails w task_id x) (tk_attachments t)
            \<and> first_pdf_url (tk_notes t) = Some u
            \<and> \<not> fetch_fails w u (task_id @ ''_'' @ last_segment u)"
  then have "download_attachments w fs task_id (tk_attachments t) = None"
    by (simp add: download_attachments_None_iff fetch_attachment_None_iff)
  moreover from a obtain fs' where
    "download_from_notes w fs task_id (tk_notes t)
     = Some (path_join (download_dir w) (task_id @ ''_'' @ last_segment u), fs')"
    using download_from_notes_Some [of "tk_notes t" u w task_id fs] by blast
  ultimately show "fst (download_pdf_from_task w fs task_id)
              = Some (path_join (download_dir w) (task_id @ ''_'' @ last_segment u))"
    using assms by (simp add: download_pdf_from_task_def)
next
  assume a: "list_all (\<lambda>x. \<not> is_pdf_attachment x \<or> attachment_fails w task_id x) (tk_attachments t)
            \<and> (first_pdf_url (tk_notes t) = None
                \<or> (first_pdf_url (tk_notes t) = Some u
                    \<and> fetch_fails w u (task_id @ ''_'' @ last_segment u)))"
  then have "download_attachments w fs task_id (tk_attachments t) = None"
    by (simp add: download_attachments_None_iff fetch_attachment_None_iff)
  moreover from a have "download_from_notes w fs task_id (tk_notes t) = None"
    by (intro download_from_notes_None) blast
  ultimately show "download_pdf_from_task w fs task_id = (None, fs)"
    using assms by (simp add: download_pdf_from_task_def)
qed

lemma locator_task3:
  "tasks_find_by_id locator_world ''3'' = Returns (url_task ''3'' ''QA'' ''http://x/missing.pdf'')"
  by code_simp

text \<open>
  In the locator world: task 4 gets its third attachment, the first PDF whose fetch
  succeeds; task 1 gets the URL of its notes; task 2, without a source, and task 3, whose
  URL answers 404, both get \<open>None\<close>.
\<close>

theorem locator_sources_witness:
  "fst (download_pdf_from_task locator_world Map.empty ''4'') = Some ''/tmp/agno_pdfs/4_b.pdf''
   \<and> fst (download_pdf_from_task locator_world Map.empty ''1'') = Some ''/tmp/agno_pdfs/1_y.pdf''
   \<and> download_pdf_from_task locator_world Map.empty ''2'' = (None, Map.empty)
   \<and> download_pdf_from_task locator_world Map.empty ''3'' = (None, Map.empty)"
proof -
  let ?a = "named_attachment ''Form.PDF'' ''http://files/a''"
  let ?t = "named_attachment ''notes.txt'' ''http://files/t''"
  let ?b = "named_attachment ''b.pdf'' ''http://files/b''"
  have pre4: "list_all (\<lambda>x. \<not> is_pdf_attachment x \<or> attachment_fails locator_world ''4'' x)
                [?a, ?t]"
    and b4: "is_pdf_attachment ?b" "\<not> attachment_fails locator_world ''4'' ?b"
    and p4: "path_join (download_dir locator_world) (''4'' @ ''_'' @ att_name ?b)
             = ''/tmp/agno_pdfs/4_b.pdf''"
    by code_simp+
  have d4: "fst (download_pdf_from_task locator_world Map.empty ''4'')
            = Some ''/tmp/agno_pdfs/4_b.pdf''"
    using locator_sources [OF locator_task4, where pre = "[?a, ?t]" and a = ?b and rest = "[]"
        and fs = Map.empty] pre4 b4 p4
    by (simp add: attachment_task_def)
  have pre1: "list_all (\<lambda>x. \<not> is_pdf_attachment x \<or> attachment_fails locator_world ''1'' x)
                (tk_attachments (attachment_task ''1'' [?a] ''http://x/y.pdf''))"
    and u1: "first_pdf_url (tk_notes (attachment_task ''1'' [?a] ''http://x/y.pdf''))
             = Some ''http://x/y.pdf''"
    and f1: "\<not> fetch_fails locator_world ''http://x/y.pdf''
               (''1'' @ ''_'' @ last_segment ''http://x/y.pdf'')"
    and p1: "path_join (download_dir locator_world)
               (''1'' @ ''_'' @ last_segment ''http://x/y.pdf'') = ''/tmp/agno_pdfs/1_y.pdf''"
    by code_simp+
  have d1: "fst (download_pdf_from_task locator_world Map.empty ''1'')
            = Some ''/tmp/agno_pdfs/1_y.pdf''"
    using locator_sources [OF locator_task1, where u = "''http://x/y.pdf''" and fs = Map.empty]
      pre1 u1 f1 p1
    by simp
  have "list_all (\<lambda>x. \<not> is_pdf_attachment x \<or> attachment_fails locator_world ''2'' x)
          (tk_attachments (bare_task ''2''))"
    and "first_pdf_url (tk_notes (bare_task ''2'')) = None"
    by code_simp+
  then have d2: "download_pdf_from_task locator_world Map.empty ''2'' = (None, Map.empty)"
    using locator_sources [OF locator_task2, where fs = Map.empty] by blast
  have "list_all (\<lambda>x. \<not> is_pdf_attachment x \<or> attachment_fails locator_world ''3'' x)
          (tk_attachments (url_task ''3'' ''QA'' ''http://x/missing.pdf''))"
    and "first_pdf_url (tk_notes (url_task ''3'' ''QA'' ''http://x/missing.pdf''))
         = Some ''http://x/missing.pdf''"
    and "fetch_fails locator_world ''http://x/missing.pdf''
           (''3'' @ ''_'' @ last_segment ''http://x/missing.pdf'')"
    by code_simp+
  then have d3: "download_pdf_from_task locator_world Map.empty ''3'' = (None, Map.empty)"
    using locator_sources [OF locator_task3, where fs = Map.empty
        and u = "''http://x/missing.pdf''"] by blast
  from d4 d1 d2 d3 show ?thesis by simp
qed

text \<open>
  C8 as stated fails in the locator world. Task 1 has a qualifying attachment, and the
  locator still falls back to the URL of the notes, because the attachment's fetch
  answered 404. Task 2 has neither source and the fetch for task 3 answered 404: the
  locator returns the same \<open>None\<close> for both, not two distinct failures.
\<close>

theorem locator_failures_counterexample:
  "list_ex is_pdf_attachment
     (tk_attachments
        (attachment_task ''1'' [named_attachment ''Form.PDF'' ''http://files/a''] ''http://x/y.pdf''))
   \<and> fst (download_pdf_from_task locator_world Map.empty ''1'') = Some ''/tmp/agno_pdfs/1_y.pdf''
   \<and> tk_attachments (bare_task ''2'') = []
   \<and> first_pdf_url (tk_notes (bare_task ''2'')) = None
   \<and> first_pdf_url (tk_notes (url_task ''3'' ''QA'' ''http://x/missing.pdf''))
     = Some ''http://x/missing.pdf''
   \<and> fst (download_pdf_from_task locator_world Map.empty ''2'')
     = fst (download_pdf_from_task locator_world Map.empty ''3'')"
proof -
  have "list_ex is_pdf_attachment
     (tk_attachments
        (attachment_task ''1'' [named_attachment ''Form.PDF'' ''http://files/a''] ''http://x/y.pdf''))"
    and "fst (download_pdf_from_task locator_world Map.empty ''1'') = Some ''/tmp/agno_pdfs/1_y.pdf''"
    and "tk_attachments (bare_task ''2'') = []"
    and "first_pdf_url (tk_notes (bare_task ''2'')) = None"
    and "first_pdf_url (tk_notes (url_task ''3'' ''QA'' ''http://x/missing.pdf''))
     = Some ''http://x/missing.pdf''"
    and "fst (download_pdf_from_task locator_world Map.empty ''2'') = None"
    and "fst (download_pdf_from_task locator_world Map.empty ''3'') = None"
    by code_simp+
  then show ?thesis by simp
qed

lemma contains_lower_occurs:
  "str_lower word = word \<Longrightarrow> contains word (str_lower nm) \<longleftrightarrow> occurs_ci word nm"
  by (simp add: contains_sublist occurs_ci_sublist)

lemma find_processing_section:
  "find is_processing_section secs = first_section_with [''qa'', ''processing''] secs"
proof -
  have "str_lower ''qa'' = ''qa''" and "str_lower ''processing'' = ''processing''"
    by (simp_all add: str_lower_def lower_char_Char)
  then have "is_processing_section
             = (\<lambda>s. list_all (\<lambda>word. occurs_ci word (sec_name s)) [''qa'', ''processing''])"
    by (auto simp: is_processing_section_def contains_lower_occurs fun_eq_iff)
  then show ?thesis by (simp add: first_section_with_def)
qed

lemma find_manual_section:
  "find is_manual_section secs = first_section_with [''qa'', ''manual follow-up''] secs"
proof -
  have "str_lower ''qa'' = ''qa''" and "str_lower ''manual follow-up'' = ''manual follow-up''"
    by (simp_all add: str_lower_def lower_char_Char)
  then have "is_manual_section
             = (\<lambda>s. list_all (\<lambda>word. occurs_ci word (sec_name s)) [''qa'', ''manual follow-up''])"
    by (auto simp: is_manual_section_def contains_lower_occurs fun_eq_iff)
  then show ?thesis by (simp add: first_section_with_def)
qed

lemma find_issues_section:
  "find is_issues_section secs = first_section_with [''qa'', ''issues''] secs"
proof -
  have "str_lower ''qa'' = ''qa''" and "str_lower ''issues'' = ''issues''"
    by (simp_all add: str_lower_def lower_char_Char)
  then have "is_issues_section
             = (\<lambda>s. list_all (\<lambda>word. occurs_ci word (sec_name s)) [''qa'', ''issues''])"
    by (auto simp: is_issues_section_def contains_lower_occurs fun_eq_iff)
  then show ?thesis by (simp add: first_section_with_def)
qed

text \<open>
  C9, as the code has it. Each of the three moves looks for the first section whose name
  contains, ignoring case, \<open>qa\<close> and its own word (\<open>processing\<close>,
  \<open>manual follow-up\<close>, \<open>issues\<close>); without such a section it returns \<open>False\<close> and
  changes nothing, and with one it moves the task there. The enumeration of the backlog
  does not match by substring: it keeps the tasks with a membership in a section whose
  whole name is \<open>qa\<close>, ignoring case.
\<close>

theorem section_lookup:
  "(sections_find_by_project w = Returns secs \<longrightarrow>
      move_task_to_processing w task_id
      = (case first_section_with [''qa'', ''processing''] secs of
           None \<Rightarrow> (False, [])
         | Some target \<Rightarrow>
             if add_task_raises w (sec_gid target) task_id
             then (if add_comment_raises w task_id then (False, [])
                   else (True, [AddComment task_id ProcessingComment]))
             else (True, [AddTask (sec_gid target) task_id]))
      \<and> move_task_to_manual_followup w task_id reason
        = (case first_section_with [''qa'', ''manual follow-up''] secs of
             None \<Rightarrow> (False, [])
           | Some target \<Rightarrow> move_and_comment w target task_id (ManualFollowupComment reason))
      \<and> move_task_to_issues w task_id reason
        = (case first_section_with [''qa'', ''issues''] secs of
             None \<Rightarrow> (False, [])
           | Some target \<Rightarrow> move_and_comment w target task_id (IssuesComment reason)))
   \<and> (\<not> add_task_raises w (sec_gid target) task_id \<and> \<not> add_comment_raises w task_id
       \<longrightarrow> move_and_comment w target task_id c
           = (True, [AddTask (sec_gid target) task_id, AddComment task_id c]))
   \<and> (tasks_find_by_project w = Returns tasks \<longrightarrow>
        get_qa_tasks w = filter (\<lambda>t. \<exists>nm \<in> set (tk_sections t). str_lower nm = ''qa'') tasks)"
  by (auto simp: move_task_to_processing_def move_task_to_manual_followup_def
        move_task_to_issues_def find_processing_section find_manual_section find_issues_section
        move_and_comment_def get_qa_tasks_def list_ex_iff
      split: option.splits)

lemma qa_sections_lookup:
  "first_section_with [''qa'', ''processing''] qa_sections
   = Some \<lparr>sec_gid = ''s2'', sec_name = ''QA - Processing''\<rparr>"
  "first_section_with [''qa'', ''manual follow-up''] qa_sections
   = Some \<lparr>sec_gid = ''s3'', sec_name = ''QA - Manual Follow-up Required''\<rparr>"
  "first_section_with [''qa'', ''issues''] qa_sections
   = Some \<lparr>sec_gid = ''s4'', sec_name = ''QA - Issues''\<rparr>"
proof -
  have "find is_processing_section qa_sections
        = Some \<lparr>sec_gid = ''s2'', sec_name = ''QA - Processing''\<rparr>"
    and "find is_manual_section qa_sections
        = Some \<lparr>sec_gid = ''s3'', sec_name = ''QA - Manual Follow-up Required''\<rparr>"
    and "find is_issues_section qa_sections
        = Some \<lparr>sec_gid = ''s4'', sec_name = ''QA - Issues''\<rparr>"
    by code_simp+
  then show
    "first_section_with [''qa'', ''processing''] qa_sections
     = Some \<lparr>sec_gid = ''s2'', sec_name = ''QA - Processing''\<rparr>"
    "first_section_with [''qa'', ''manual follow-up''] qa_sections
     = Some \<lparr>sec_gid = ''s3'', sec_name = ''QA - Manual Follow-up Required''\<rparr>"
    "first_section_with [''qa'', ''issues''] qa_sections
     = Some \<lparr>sec_gid = ''s4'', sec_name = ''QA - Issues''\<rparr>"
    by (simp_all only: find_processing_section find_manual_section find_issues_section)
qed

text \<open>
  In a world with the sections QA, QA - Processing, QA - Manual Follow-up Required and
  QA - Issues, the three moves go to the second, third and fourth section, and the
  backlog holds the task of the section \<open>Qa\<close> and not the one of \<open>QA - Processing\<close>.
\<close>

theorem section_lookup_witness:
  "move_task_to_processing (pipeline_world scan_doc 200 []) ''1'' = (True, [AddTask ''s2'' ''1''])
   \<and> move_task_to_manual_followup (pipeline_world scan_doc 200 []) ''1'' ''r''
     = (True, [AddTask ''s3'' ''1'', AddComment ''1'' (ManualFollowupComment ''r'')])
   \<and> move_task_to_issues (pipeline_world scan_doc 200 []) ''1'' ''r''
     = (True, [AddTask ''s4'' ''1'', AddComment ''1'' (IssuesComment ''r'')])
   \<and> get_qa_tasks
        (world_of [url_task ''1'' ''Qa'' ''http://x/y.pdf'',
                   url_task ''2'' ''QA - Processing'' ''http://x/y.pdf''] (web_of [] 200 []))
     = [url_task ''1'' ''Qa'' ''http://x/y.pdf'']"
proof -
  let ?w = "pipeline_world scan_doc 200 []"
  let ?w2 = "world_of [url_task ''1'' ''Qa'' ''http://x/y.pdf'',
                       url_task ''2'' ''QA - Processing'' ''http://x/y.pdf''] (web_of [] 200 [])"
  have secs: "sections_find_by_project ?w = Returns qa_sections"
    and ok: "\<not> add_task_raises ?w g ''1''" "\<not> add_comment_raises ?w ''1''" for g
    by (simp_all add: pipeline_world_def world_of_def)
  have a: "move_task_to_processing ?w ''1'' = (True, [AddTask ''s2'' ''1''])"
    using section_lookup [of ?w qa_sections "''1''"] secs ok
    by (simp add: qa_sections_lookup)
  have b: "move_task_to_manual_followup ?w ''1'' ''r''
           = (True, [AddTask ''s3'' ''1'', AddComment ''1'' (ManualFollowupComment ''r'')])"
    using section_lookup [of ?w qa_sections "''1''" "''r''"
        "\<lparr>sec_gid = ''s3'', sec_name = ''QA - Manual Follow-up Required''\<rparr>"
        "ManualFollowupComment ''r''"] secs ok
    by (simp add: qa_sections_lookup)
  have c: "move_task_to_issues ?w ''1'' ''r''
           = (True, [AddTask ''s4'' ''1'', AddComment ''1'' (IssuesComment ''r'')])"
    using section_lookup [of ?w qa_sections "''1''" "''r''"
        "\<lparr>sec_gid = ''s4'', sec_name = ''QA - Issues''\<rparr>" "IssuesComment ''r''"] secs ok
    by (simp add: qa_sections_lookup)
  have ts: "tasks_find_by_project ?w2
            = Returns [url_task ''1'' ''Qa'' ''http://x/y.pdf'',
                       url_task ''2'' ''QA - Processing'' ''http://x/y.pdf'']"
    by (simp add: world_of_def)
  have low: "str_lower ''Qa'' = ''qa''" "str_lower ''QA - Processing'' \<noteq> ''qa''"
    by code_simp+
  have d: "get_qa_tasks ?w2 = [url_task ''1'' ''Qa'' ''http://x/y.pdf'']"
    using section_lookup [of ?w2 _ _ _ _ _ "[url_task ''1'' ''Qa'' ''http://x/y.pdf'',
                       url_task ''2'' ''QA - Processing'' ''http://x/y.pdf'']"] ts low
    by (simp add: url_task_def)
  from a b c d show ?thesis by simp
qed

text \<open>
  C9 as stated fails for the enumeration of the backlog: the name \<open>QA - Processing\<close>
  contains \<open>qa\<close>, ignoring case, and the task in that section is not enumerated.
\<close>

theorem backlog_lookup_counterexample:
  "contains ''qa'' (str_lower ''QA - Processing'')
   \<and> get_qa_tasks
        (world_of [url_task ''2'' ''QA - Processing'' ''http://x/y.pdf''] (web_of [] 200 []))
     = []"
proof -
  have "contains ''qa'' (str_lower ''QA - Processing'')"
    and "get_qa_tasks
        (world_of [url_task ''2'' ''QA - Processing'' ''http://x/y.pdf''] (web_of [] 200 []))
     = []"
    by code_simp+
  then show ?thesis by simp
qed

lemma processing_calls_plain:
  "\<not> list_ex completes_or_follows_up (snd (move_task_to_processing w task_id))"
  by (auto simp: move_task_to_processing_def split: attempt.splits option.splits)

lemma issues_calls_plain:
  "\<not> list_ex completes_or_follows_up (snd (move_task_to_issues w task_id reason))"
  by (auto simp: move_task_to_issues_def move_and_comment_def Let_def
           split: attempt.splits option.splits)

text \<open>
  C2, as the code has it. Let the document of a picked-up task be located.
  \<^item> In the intelligent agent, an empty record or a form type other than 471 ends in
    \<open>ISSUES\<close>: after the move to Processing the only operation is the move to Issues
    with the reason \<open>Not a Form 471 or extraction failed\<close>, and no call belongs to
    Completed or ManualFollowup.
  \<^item> In the direct runner, an empty record ends in the move to Issues with the reason
    \<open>Failed to extract form information from PDF\<close>, and no call belongs to Completed
    or ManualFollowup; a record that is not empty goes to the registry whatever its form
    type, and the task is completed or followed up by what the registry answers.
\<close>

theorem extraction_failure_outcome:
  assumes "download_pdf_from_task w fs task_id = (Some pdf_path, fs')" and "pdf_path \<noteq> []"
  shows "(extract_form_info (pdf_open w) fs' pdf_path = []
            \<or> dict_get (extract_form_info (pdf_open w) fs' pdf_path) ''form_type'' \<noteq> Some ''471''
          \<longrightarrow> process_single_task w fs task_id task_name
              = (''ISSUES'',
                 snd (move_task_to_processing w task_id)
                 @ snd (move_task_to_issues w task_id ''Not a Form 471 or extraction failed''),
                 fs')
            \<and> \<not> list_ex completes_or_follows_up
                  (fst (snd (process_single_task w fs task_id task_name))))
       \<and> (extract_form_info (pdf_open w) fs' pdf_path = []
          \<longrightarrow> process_qa_task w fs task_id
              = (snd (move_task_to_processing w task_id)
                 @ snd (move_task_to_issues w task_id
                          ''Failed to extract form information from PDF''),
                 fs')
            \<and> \<not> list_ex completes_or_follows_up (fst (process_qa_task w fs task_id)))
       \<and> (extract_form_info (pdf_open w) fs' pdf_path \<noteq> []
          \<longrightarrow> process_qa_task w fs task_id
              = (snd (move_task_to_processing w task_id)
                 @ (if pyval_truthy
                         (map_of (fst (search_form470 (requests_get w)
                                         (extract_form_info (pdf_open w) fs' pdf_path)))
                            ''found'')
                    then snd (mark_task_complete w task_id
                                (map_of (fst (search_form470 (requests_get w)
                                                (extract_form_info (pdf_open w) fs' pdf_path)))
                                   ''form470_url''))
                    else snd (move_task_to_manual_followup w task_id
                                ''Form 470 not found in USAC database'')
                         @ snd (create_manual_review_subtask w task_id
                                  (extract_form_info (pdf_open w) fs' pdf_path))),
                 fs'))"
proof (intro conjI impI)
  assume a: "extract_form_info (pdf_open w) fs' pdf_path = []
            \<or> dict_get (extract_form_info (pdf_open w) fs' pdf_path) ''form_type'' \<noteq> Some ''471''"
  with assms show r: "process_single_task w fs task_id task_name
              = (''ISSUES'',
                 snd (move_task_to_processing w task_id)
                 @ snd (move_task_to_issues w task_id ''Not a Form 471 or extraction failed''),
                 fs')"
    by (auto simp: process_single_task_def Let_def)
  show "\<not> list_ex completes_or_follows_up
            (fst (snd (process_single_task w fs task_id task_name)))"
    using processing_calls_plain [of w task_id]
      issues_calls_plain [of w task_id "''Not a Form 471 or extraction failed''"]
    by (auto simp: r list_ex_iff)
next
  assume a: "extract_form_info (pdf_open w) fs' pdf_path = []"
  with assms show r: "process_qa_task w fs task_id
              = (snd (move_task_to_processing w task_id)
                 @ snd (move_task_to_issues w task_id
                          ''Failed to extract form information from PDF''),
                 fs')"
    by (simp add: process_qa_task_def Let_def)
  show "\<not> list_ex completes_or_follows_up (fst (process_qa_task w fs task_id))"
    using processing_calls_plain [of w task_id]
      issues_calls_plain [of w task_id "''Failed to extract form information from PDF''"]
    by (auto simp: r list_ex_iff)
next
  assume "extract_form_info (pdf_open w) fs' pdf_path \<noteq> []"
  with assms show "process_qa_task w fs task_id
              = (snd (move_task_to_processing w task_id)
                 @ (if pyval_truthy
                         (map_of (fst (search_form470 (requests_get w)
                                         (extract_form_info (pdf_open w) fs' pdf_path)))
                            ''found'')
                    then snd (mark_task_complete w task_id
                                (map_of (fst (search_form470 (requests_get w)
                                                (extract_form_info (pdf_open w) fs' pdf_path)))
                                   ''form470_url''))
                    else snd (move_task_to_manual_followup w task_id
                                ''Form 470 not found in USAC database'')
                         @ snd (create_manual_review_subtask w task_id
                                  (extract_form_info (pdf_open w) fs' pdf_path))),
                 fs')"
    by (simp add: process_qa_task_def Let_def)
qed

lemma pipeline_task:
  "tasks_find_by_id (pipeline_world doc st recs) ''1''
   = Returns (url_task ''1'' ''QA'' ''http://x/y.pdf'')"
  by (simp add: pipeline_world_def world_of_def url_task_def)

lemma pipeline_download:
  "download_pdf_from_task (pipeline_world doc st recs) Map.empty ''1''
   = (Some ''/tmp/agno_pdfs/1_y.pdf'', [''/tmp/agno_pdfs/1_y.pdf'' \<mapsto> doc])"
proof -
  let ?w = "pipeline_world doc st recs"
  have url: "first_pdf_url (tk_notes (url_task ''1'' ''QA'' ''http://x/y.pdf''))
             = Some ''http://x/y.pdf''"
    and path: "path_join ''/tmp/agno_pdfs'' (''1'' @ ''_'' @ last_segment ''http://x/y.pdf'')
               = ''/tmp/agno_pdfs/1_y.pdf''"
    and other: "''http://x/y.pdf'' \<noteq> usac_url"
    by code_simp+
  have dir: "download_dir ?w = ''/tmp/agno_pdfs''"
    by (simp add: download_dir_def pipeline_world_def world_of_def)
  have req: "requests_get ?w (''http://x/y.pdf'', [])
             = Returns \<lparr>status_code = 200, content = doc, json = Raises ''not JSON''\<rparr>"
    using other by (simp add: pipeline_world_def world_of_def web_of_def)
  have "fetch_to_file ?w Map.empty ''http://x/y.pdf''
          (''1'' @ ''_'' @ last_segment ''http://x/y.pdf'')
        = Some (''/tmp/agno_pdfs/1_y.pdf'', [''/tmp/agno_pdfs/1_y.pdf'' \<mapsto> doc])"
    unfolding fetch_to_file_def req dir Let_def path
    by (simp add: pipeline_world_def world_of_def)
  then have "download_from_notes ?w Map.empty ''1''
               (tk_notes (url_task ''1'' ''QA'' ''http://x/y.pdf''))
             = Some (''/tmp/agno_pdfs/1_y.pdf'', [''/tmp/agno_pdfs/1_y.pdf'' \<mapsto> doc])"
    by (simp only: download_from_notes_eq url option.case)
  then show ?thesis
    by (simp add: download_pdf_from_task_def pipeline_task) (simp add: url_task_def)
qed

lemma pipeline_extract:
  "extract_form_info (pdf_open (pipeline_world doc st recs))
     [''/tmp/agno_pdfs/1_y.pdf'' \<mapsto> doc] ''/tmp/agno_pdfs/1_y.pdf''
   = form_info_of_text doc"
  by (simp add: extract_form_info_def pipeline_world_def world_of_def pages_text_def)

lemma form470_doc_info:
  "form_info_of_text form470_doc
   = [(''application_number'', ''251043327''),
      (''form_type'', ''470''),
      (''billed_entity_name'', ''Unknown'')]"
  and scan_doc_info: "form_info_of_text scan_doc = []"
  and form471_doc_info:
  "form_info_of_text form471_doc
   = [(''application_number'', ''251043327''),
      (''form_type'', ''471''),
      (''billed_entity_name'', ''Unknown''),
      (''establishing_form470_number'', ''123456789012345'')]"
  by code_simp+

lemma pipeline_moves:
  "snd (move_task_to_processing (pipeline_world doc st recs) ''1'') = [AddTask ''s2'' ''1'']"
  "snd (move_task_to_issues (pipeline_world doc st recs) ''1'' reason)
   = [AddTask ''s4'' ''1'', AddComment ''1'' (IssuesComment reason)]"
  "snd (move_task_to_manual_followup (pipeline_world doc st recs) ''1'' reason)
   = [AddTask ''s3'' ''1'', AddComment ''1'' (ManualFollowupComment reason)]"
proof -
  let ?w = "pipeline_world doc st recs"
  have secs: "sections_find_by_project ?w = Returns qa_sections"
    and ok: "\<not> add_task_raises ?w g ''1''" "\<not> add_comment_raises ?w ''1''" for g
    by (simp_all add: pipeline_world_def world_of_def)
  have f: "find is_processing_section qa_sections
        = Some \<lparr>sec_gid = ''s2'', sec_name = ''QA - Processing''\<rparr>"
    "find is_manual_section qa_sections
        = Some \<lparr>sec_gid = ''s3'', sec_name = ''QA - Manual Follow-up Required''\<rparr>"
    "find is_issues_section qa_sections
        = Some \<lparr>sec_gid = ''s4'', sec_name = ''QA - Issues''\<rparr>"
    by code_simp+
  show "snd (move_task_to_processing ?w ''1'') = [AddTask ''s2'' ''1'']"
    by (simp add: move_task_to_processing_def secs f ok)
  show "snd (move_task_to_issues ?w ''1'' reason)
        = [AddTask ''s4'' ''1'', AddComment ''1'' (IssuesComment reason)]"
    by (simp add: move_task_to_issues_def move_and_comment_def secs f ok)
  show "snd (move_task_to_manual_followup ?w ''1'' reason)
        = [AddTask ''s3'' ''1'', AddComment ''1'' (ManualFollowupComment reason)]"
    by (simp add: move_task_to_manual_followup_def move_and_comment_def secs f ok)
qed

text \<open>
  A Form 470 and a document without any number, each at the URL of the task. The
  intelligent agent sends both to Issues with its reason; the direct runner sends the
  second to Issues with its own reason, and completes the first, which the registry
  knows.
\<close>

theorem extraction_failure_outcome_witness:
  "process_single_task (pipeline_world form470_doc 200 [[(''form_pdf'', ''http://usac/470.pdf'')]])
     Map.empty ''1'' ''Test''
   = (''ISSUES'',
      [AddTask ''s2'' ''1'', AddTask ''s4'' ''1'',
       AddComment ''1'' (IssuesComment ''Not a Form 471 or extraction failed'')],
      [''/tmp/agno_pdfs/1_y.pdf'' \<mapsto> form470_doc])
   \<and> process_single_task (pipeline_world scan_doc 200 []) Map.empty ''1'' ''Test''
     = (''ISSUES'',
        [AddTask ''s2'' ''1'', AddTask ''s4'' ''1'',
         AddComment ''1'' (IssuesComment ''Not a Form 471 or extraction failed'')],
        [''/tmp/agno_pdfs/1_y.pdf'' \<mapsto> scan_doc])
   \<and> process_qa_task (pipeline_world scan_doc 200 []) Map.empty ''1''
     = ([AddTask ''s2'' ''1'', AddTask ''s4'' ''1'',
         AddComment ''1'' (IssuesComment ''Failed to extract form information from PDF'')],
        [''/tmp/agno_pdfs/1_y.pdf'' \<mapsto> scan_doc])
   \<and> process_qa_task (pipeline_world form470_doc 200 [[(''form_pdf'', ''http://usac/470.pdf'')]])
       Map.empty ''1''
     = ([AddTask ''s2'' ''1'', UpdateCompleted ''1'',
         AddComment ''1'' (CompletedComment (Some (PStr ''http://usac/470.pdf'')))],
        [''/tmp/agno_pdfs/1_y.pdf'' \<mapsto> form470_doc])"
proof -
  have ne: "''/tmp/agno_pdfs/1_y.pdf'' \<noteq> []" by simp
  have sr: "fst (search_form470
                   (requests_get
                      (pipeline_world form470_doc 200 [[(''form_pdf'', ''http://usac/470.pdf'')]]))
                   (form_info_of_text form470_doc))
            = [(''found'', PBool True),
               (''form470_url'', PStr ''http://usac/470.pdf''),
               (''search_number'', PStr ''251043327''),
               (''record'', PDict [(''form_pdf'', ''http://usac/470.pdf'')])]"
    by code_simp
  have completed: "snd (mark_task_complete
                     (pipeline_world form470_doc 200 [[(''form_pdf'', ''http://usac/470.pdf'')]])
                     ''1'' url)
              = [UpdateCompleted ''1'', AddComment ''1'' (CompletedComment url)]" for url
    by (simp add: mark_task_complete_def pipeline_world_def world_of_def)
  have d: "process_qa_task
             (pipeline_world form470_doc 200 [[(''form_pdf'', ''http://usac/470.pdf'')]])
             Map.empty ''1''
           = ([AddTask ''s2'' ''1'', UpdateCompleted ''1'',
               AddComment ''1'' (CompletedComment (Some (PStr ''http://usac/470.pdf'')))],
              [''/tmp/agno_pdfs/1_y.pdf'' \<mapsto> form470_doc])"
    using extraction_failure_outcome [OF pipeline_download ne,
        of form470_doc 200 "[[(''form_pdf'', ''http://usac/470.pdf'')]]" "''Test''"]
    by (simp add: pipeline_extract sr pipeline_moves completed) (simp add: form470_doc_info)
  have a: "process_single_task
             (pipeline_world form470_doc 200 [[(''form_pdf'', ''http://usac/470.pdf'')]])
             Map.empty ''1'' ''Test''
           = (''ISSUES'',
              [AddTask ''s2'' ''1'', AddTask ''s4'' ''1'',
               AddComment ''1'' (IssuesComment ''Not a Form 471 or extraction failed'')],
              [''/tmp/agno_pdfs/1_y.pdf'' \<mapsto> form470_doc])"
    using extraction_failure_outcome [OF pipeline_download ne,
        of form470_doc 200 "[[(''form_pdf'', ''http://usac/470.pdf'')]]" "''Test''"]
    by (simp add: pipeline_extract form470_doc_info dict_get_def pipeline_moves)
  have b: "process_single_task (pipeline_world scan_doc 200 []) Map.empty ''1'' ''Test''
           = (''ISSUES'',
              [AddTask ''s2'' ''1'', AddTask ''s4'' ''1'',
               AddComment ''1'' (IssuesComment ''Not a Form 471 or extraction failed'')],
              [''/tmp/agno_pdfs/1_y.pdf'' \<mapsto> scan_doc])"
    using extraction_failure_outcome [OF pipeline_download ne, of scan_doc 200 "[]" "''Test''"]
    by (simp add: pipeline_extract scan_doc_info pipeline_moves)
  have c: "process_qa_task (pipeline_world scan_doc 200 []) Map.empty ''1''
           = ([AddTask ''s2'' ''1'', AddTask ''s4'' ''1'',
               AddComment ''1'' (IssuesComment ''Failed to extract form information from PDF'')],
              [''/tmp/agno_pdfs/1_y.pdf'' \<mapsto> scan_doc])"
    using extraction_failure_outcome [OF pipeline_download ne, of scan_doc 200 "[]" "''Test''"]
    by (simp add: pipeline_extract scan_doc_info pipeline_moves)
  from a b c d show ?thesis by (simp only: simp_thms)
qed

text \<open>
  C2 as stated fails for the direct runner. A located document that is a Form 470 with an
  application number the registry knows ends Completed, and a located document without
  any number ends in Issues with the reason \<open>Failed to extract form information from
  PDF\<close>, not \<open>Not a Form 471 or extraction failed\<close>.
\<close>

theorem direct_runner_counterexample:
  "fst (download_pdf_from_task
          (pipeline_world form470_doc 200 [[(''form_pdf'', ''http://usac/470.pdf'')]])
          Map.empty ''1'') = Some ''/tmp/agno_pdfs/1_y.pdf''
   \<and> dict_get
        (extract_form_info
           (pdf_open (pipeline_world form470_doc 200 [[(''form_pdf'', ''http://usac/470.pdf'')]]))
           (snd (download_pdf_from_task
                   (pipeline_world form470_doc 200 [[(''form_pdf'', ''http://usac/470.pdf'')]])
                   Map.empty ''1''))
           ''/tmp/agno_pdfs/1_y.pdf'')
        ''form_type'' = Some ''470''
   \<and> fst (process_qa_task
            (pipeline_world form470_doc 200 [[(''form_pdf'', ''http://usac/470.pdf'')]])
            Map.empty ''1'')
     = [AddTask ''s2'' ''1'', UpdateCompleted ''1'',
        AddComment ''1'' (CompletedComment (Some (PStr ''http://usac/470.pdf'')))]
   \<and> extract_form_info (pdf_open (pipeline_world scan_doc 200 []))
        (snd (download_pdf_from_task (pipeline_world scan_doc 200 []) Map.empty ''1''))
        ''/tmp/agno_pdfs/1_y.pdf'' = []
   \<and> fst (process_qa_task (pipeline_world scan_doc 200 []) Map.empty ''1'')
     = [AddTask ''s2'' ''1'', AddTask ''s4'' ''1'',
        AddComment ''1'' (IssuesComment ''Failed to extract form information from PDF'')]"
proof -
  have "fst (download_pdf_from_task
          (pipeline_world form470_doc 200 [[(''form_pdf'', ''http://usac/470.pdf'')]])
          Map.empty ''1'') = Some ''/tmp/agno_pdfs/1_y.pdf''"
    and "dict_get
        (extract_form_info
           (pdf_open (pipeline_world form470_doc 200 [[(''form_pdf'', ''http://usac/470.pdf'')]]))
           (snd (download_pdf_from_task
                   (pipeline_world form470_doc 200 [[(''form_pdf'', ''http://usac/470.pdf'')]])
                   Map.empty ''1''))
           ''/tmp/agno_pdfs/1_y.pdf'')
        ''form_type'' = Some ''470''"
    and "fst (process_qa_task
            (pipeline_world form470_doc 200 [[(''form_pdf'', ''http://usac/470.pdf'')]])
            Map.empty ''1'')
     = [AddTask ''s2'' ''1'', UpdateCompleted ''1'',
        AddComment ''1'' (CompletedComment (Some (PStr ''http://usac/470.pdf'')))]"
    and "extract_form_info (pdf_open (pipeline_world scan_doc 200 []))
        (snd (download_pdf_from_task (pipeline_world scan_doc 200 []) Map.empty ''1''))
        ''/tmp/agno_pdfs/1_y.pdf'' = []"
    and "fst (process_qa_task (pipeline_world scan_doc 200 []) Map.empty ''1'')
     = [AddTask ''s2'' ''1'', AddTask ''s4'' ''1'',
        AddComment ''1'' (IssuesComment ''Failed to extract form information from PDF'')]"
    by code_simp+
  then show ?thesis by (simp only: simp_thms)
qed

lemma create_subtask_calls:
  "snd (create_manual_review_subtask w task_id form_info) = []
   \<or> (\<exists>workspace_gid.
        snd (create_manual_review_subtask w task_id form_info)
        = [CreateTask \<lparr>sub_name = subtask_name form_info, sub_notes = subtask_notes form_info,
                       sub_parent = task_id, sub_workspace = workspace_gid\<rparr>])"
  by (auto simp: create_manual_review_subtask_def Let_def split: attempt.splits option.splits)

lemma create_subtask_done:
  assumes "tasks_find_by_id w task_id = Returns t"
    and "project_workspace w = Returns (Some workspace_gid)" and "workspace_gid \<noteq> []"
    and "\<not> create_raises w \<lparr>sub_name = subtask_name form_info,
                             sub_notes = subtask_notes form_info,
                             sub_parent = task_id, sub_workspace = workspace_gid\<rparr>"
  shows "create_manual_review_subtask w task_id form_info
         = (True, [CreateTask \<lparr>sub_name = subtask_name form_info,
                                sub_notes = subtask_notes form_info,
                                sub_parent = task_id, sub_workspace = workspace_gid\<rparr>])"
  using assms by (simp add: create_manual_review_subtask_def Let_def)

lemma subtask_fields:
  assumes "dict_get form_info ''application_number'' = Some a"
    and "dict_get form_info ''form_type'' = Some ft"
    and "dict_get form_info ''billed_entity_name'' = Some b"
  shows "subtask_name form_info = ''Manual Review: Find Form 470 for '' @ a"
    and "sublist (''Form 471 Application Number: '' @ a) (subtask_notes form_info)"
    and "sublist (''Form Type: '' @ ft) (subtask_notes form_info)"
    and "sublist (''Billed Entity: '' @ b) (subtask_notes form_info)"
proof -
  have g: "dict_get_default form_info ''application_number'' ''Unknown'' = a"
    "dict_get_default form_info ''form_type'' ''Unknown'' = ft"
    "dict_get_default form_info ''billed_entity_name'' ''Unknown'' = b"
    using assms by (simp_all add: dict_get_def dict_get_default_def)
  show "subtask_name form_info = ''Manual Review: Find Form 470 for '' @ a"
    by (simp add: subtask_name_def g)
  let ?p1 = "''This sub-task was created automatically because no Form 470 was found for Form 471.''
             @ ''\<newline>\<newline>''"
  let ?s1 = "''\<newline>Form Type: '' @ ft @ ''\<newline>Billed Entity: '' @ b
     @ ''\<newline>\<newline>Please manually search for the corresponding Form 470 and update ''
     @ ''this sub-task with the results.''
     @ ''\<newline>\<newline>Expected actions:''
     @ ''\<newline>1. Search USAC database for Form 470''
     @ ''\<newline>2. Verify the Form 470 matches the Form 471''
     @ ''\<newline>3. Update this sub-task with findings''
     @ ''\<newline>4. Mark parent task as complete if Form 470 is found''"
  have "subtask_notes form_info = ?p1 @ (''Form 471 Application Number: '' @ a) @ ?s1"
    by (simp add: subtask_notes_def g)
  then show "sublist (''Form 471 Application Number: '' @ a) (subtask_notes form_info)"
    by (simp only: sublist_appendI)
  let ?p2 = "''This sub-task was created automatically because no Form 470 was found for Form 471.''
             @ ''\<newline>\<newline>Form 471 Application Number: '' @ a @ ''\<newline>''"
  let ?s2 = "''\<newline>Billed Entity: '' @ b
     @ ''\<newline>\<newline>Please manually search for the corresponding Form 470 and update ''
     @ ''this sub-task with the results.''
     @ ''\<newline>\<newline>Expected actions:''
     @ ''\<newline>1. Search USAC database for Form 470''
     @ ''\<newline>2. Verify the Form 470 matches the Form 471''
     @ ''\<newline>3. Update this sub-task with findings''
     @ ''\<newline>4. Mark parent task as complete if Form 470 is found''"
  have "subtask_notes form_info = ?p2 @ (''Form Type: '' @ ft) @ ?s2"
    by (simp add: subtask_notes_def g)
  then show "sublist (''Form Type: '' @ ft) (subtask_notes form_info)"
    by (simp only: sublist_appendI)
  let ?p3 = "''This sub-task was created automatically because no Form 470 was found for Form 471.''
             @ ''\<newline>\<newline>Form 471 Application Number: '' @ a
             @ ''\<newline>Form Type: '' @ ft @ ''\<newline>''"
  let ?s3 = "''\<newline>\<newline>Please manually search for the corresponding Form 470 and update ''
     @ ''this sub-task with the results.''
     @ ''\<newline>\<newline>Expected actions:''
     @ ''\<newline>1. Search USAC database for Form 470''
     @ ''\<newline>2. Verify the Form 470 matches the Form 471''
     @ ''\<newline>3. Update this sub-task with findings''
     @ ''\<newline>4. Mark parent task as complete if Form 470 is found''"
  have "subtask_notes form_info = ?p3 @ (''Billed Entity: '' @ b) @ ?s3"
    by (simp add: subtask_notes_def g)
  then show "sublist (''Billed Entity: '' @ b) (subtask_notes form_info)"
    by (simp only: sublist_appendI)
qed

lemma subtask_three_fields:
  assumes "dict_get other ''application_number'' = dict_get form_info ''application_number''"
    and "dict_get other ''form_type'' = dict_get form_info ''form_type''"
    and "dict_get other ''billed_entity_name'' = dict_get form_info ''billed_entity_name''"
  shows "subtask_name other = subtask_name form_info
         \<and> subtask_notes other = subtask_notes form_info"
  using assms by (simp add: subtask_name_def subtask_notes_def dict_get_def dict_get_default_def)

lemma followup_reason:
  "AddComment t' (ManualFollowupComment r)
     \<in> set (snd (move_task_to_processing w task_id)
            @ snd (move_task_to_manual_followup w task_id reason)
            @ snd (create_manual_review_subtask w task_id form_info))
   \<Longrightarrow> r = reason"
  using create_subtask_calls [of w task_id form_info]
  by (auto simp: move_task_to_processing_def move_task_to_manual_followup_def
        move_and_comment_def Let_def
      split: attempt.splits option.splits if_splits)

text \<open>
  C3, as the code has it. Let the document be located, the record not be empty, its form
  type be 471 and the registry search not find a Form 470. Then both pipelines, after the
  move to Processing, move the task to Manual Follow-up with the fixed reason \<open>Form 470
  not found in USAC database\<close>, whatever error the search result carries, and call the
  creation of the child task once. That call creates at most one child task, and exactly
  one when the parent task and the workspace are found and the store accepts it. Its
  name and notes carry the application number, the form type and the billed entity
  name, and depend on nothing else in the record: the establishing Form 470 number is
  not in them.
\<close>

theorem not_found_outcome:
  assumes "download_pdf_from_task w fs task_id = (Some pdf_path, fs')" and "pdf_path \<noteq> []"
    and "extract_form_info (pdf_open w) fs' pdf_path = form_info" and "form_info \<noteq> []"
    and "dict_get form_info ''form_type'' = Some ''471''"
    and "\<not> pyval_truthy (map_of (fst (search_form470 (requests_get w) form_info)) ''found'')"
  shows "process_single_task w fs task_id task_name
         = (''MANUAL_FOLLOWUP'',
            snd (move_task_to_processing w task_id)
            @ snd (move_task_to_manual_followup w task_id ''Form 470 not found in USAC database'')
            @ snd (create_manual_review_subtask w task_id form_info),
            fs')
       \<and> process_qa_task w fs task_id
         = (snd (move_task_to_processing w task_id)
            @ snd (move_task_to_manual_followup w task_id ''Form 470 not found in USAC database'')
            @ snd (create_manual_review_subtask w task_id form_info),
            fs')
       \<and> (\<forall>t' r. AddComment t' (ManualFollowupComment r)
                    \<in> set (fst (snd (process_single_task w fs task_id task_name)))
                  \<longrightarrow> r = ''Form 470 not found in USAC database'')
       \<and> (snd (create_manual_review_subtask w task_id form_info) = []
          \<or> (\<exists>workspace_gid.
                snd (create_manual_review_subtask w task_id form_info)
                = [CreateTask \<lparr>sub_name = subtask_name form_info,
                               sub_notes = subtask_notes form_info,
                               sub_parent = task_id, sub_workspace = workspace_gid\<rparr>]))
       \<and> (tasks_find_by_id w task_id = Returns t
            \<and> project_workspace w = Returns (Some workspace_gid) \<and> workspace_gid \<noteq> []
            \<and> \<not> create_raises w \<lparr>sub_name = subtask_name form_info,
                                    sub_notes = subtask_notes form_info,
                                    sub_parent = task_id, sub_workspace = workspace_gid\<rparr>
          \<longrightarrow> create_manual_review_subtask w task_id form_info
              = (True, [CreateTask \<lparr>sub_name = subtask_name form_info,
                                     sub_notes = subtask_notes form_info,
                                     sub_parent = task_id, sub_workspace = workspace_gid\<rparr>]))
       \<and> (dict_get form_info ''application_number'' = Some a
            \<and> dict_get form_info ''billed_entity_name'' = Some b
          \<longrightarrow> subtask_name form_info = ''Manual Review: Find Form 470 for '' @ a
            \<and> sublist (''Form 471 Application Number: '' @ a) (subtask_notes form_info)
            \<and> sublist ''Form Type: 471'' (subtask_notes form_info)
            \<and> sublist (''Billed Entity: '' @ b) (subtask_notes form_info))
       \<and> (dict_get other ''application_number'' = dict_get form_info ''application_number''
            \<and> dict_get other ''form_type'' = dict_get form_info ''form_type''
            \<and> dict_get other ''billed_entity_name'' = dict_get form_info ''billed_entity_name''
          \<longrightarrow> subtask_name other = subtask_name form_info
            \<and> subtask_notes other = subtask_notes form_info)"
proof -
  have single: "process_single_task w fs task_id task_name
         = (''MANUAL_FOLLOWUP'',
            snd (move_task_to_processing w task_id)
            @ snd (move_task_to_manual_followup w task_id ''Form 470 not found in USAC database'')
            @ snd (create_manual_review_subtask w task_id form_info),
            fs')"
    using assms by (simp add: process_single_task_def Let_def)
  have direct: "process_qa_task w fs task_id
         = (snd (move_task_to_processing w task_id)
            @ snd (move_task_to_manual_followup w task_id ''Form 470 not found in USAC database'')
            @ snd (create_manual_review_subtask w task_id form_info),
            fs')"
    using assms by (simp add: process_qa_task_def Let_def)
  have reason: "\<forall>t' r. AddComment t' (ManualFollowupComment r)
                    \<in> set (fst (snd (process_single_task w fs task_id task_name)))
                  \<longrightarrow> r = ''Form 470 not found in USAC database''"
    unfolding single using followup_reason by (simp del: set_append)
  have fields: "subtask_name form_info = ''Manual Review: Find Form 470 for '' @ a
            \<and> sublist (''Form 471 Application Number: '' @ a) (subtask_notes form_info)
            \<and> sublist ''Form Type: 471'' (subtask_notes form_info)
            \<and> sublist (''Billed Entity: '' @ b) (subtask_notes form_info)"
    if "dict_get form_info ''application_number'' = Some a
            \<and> dict_get form_info ''billed_entity_name'' = Some b"
    using subtask_fields [of form_info a "''471''" b] that assms(5) by simp
  show ?thesis
    using single direct reason create_subtask_calls [of w task_id form_info]
      create_subtask_done [of w task_id t workspace_gid form_info] fields
      subtask_three_fields [of other form_info]
    by blast
qed

lemma form471_info_doc: "form_info_of_text form471_doc = form471_info"
  by (simp add: form471_doc_info form471_info_def)

text \<open>
  A Form 471 that cites its Form 470, and a registry that has no record of it: the task
  is followed up with the fixed reason, and one child task is created whose name and
  notes show the application number, the form type and the billed entity name.
\<close>

theorem not_found_outcome_witness:
  "process_single_task (pipeline_world form471_doc 200 []) Map.empty ''1'' ''Test''
   = (''MANUAL_FOLLOWUP'',
      [AddTask ''s2'' ''1'', AddTask ''s3'' ''1'',
       AddComment ''1'' (ManualFollowupComment ''Form 470 not found in USAC database''),
       CreateTask \<lparr>sub_name = ''Manual Review: Find Form 470 for 251043327'',
                   sub_notes = subtask_notes form471_info,
                   sub_parent = ''1'', sub_workspace = ''w1''\<rparr>],
      [''/tmp/agno_pdfs/1_y.pdf'' \<mapsto> form471_doc])
   \<and> process_qa_task (pipeline_world form471_doc 200 []) Map.empty ''1''
     = ([AddTask ''s2'' ''1'', AddTask ''s3'' ''1'',
         AddComment ''1'' (ManualFollowupComment ''Form 470 not found in USAC database''),
         CreateTask \<lparr>sub_name = ''Manual Review: Find Form 470 for 251043327'',
                     sub_notes = subtask_notes form471_info,
                     sub_parent = ''1'', sub_workspace = ''w1''\<rparr>],
        [''/tmp/agno_pdfs/1_y.pdf'' \<mapsto> form471_doc])
   \<and> sublist ''Form 471 Application Number: 251043327'' (subtask_notes form471_info)
   \<and> sublist ''Form Type: 471'' (subtask_notes form471_info)
   \<and> sublist ''Billed Entity: Unknown'' (subtask_notes form471_info)"
proof -
  let ?w = "pipeline_world form471_doc 200 []"
  have ne: "''/tmp/agno_pdfs/1_y.pdf'' \<noteq> []" by simp
  have ext: "extract_form_info (pdf_open ?w) [''/tmp/agno_pdfs/1_y.pdf'' \<mapsto> form471_doc]
               ''/tmp/agno_pdfs/1_y.pdf'' = form471_info"
    by (simp only: pipeline_extract form471_info_doc)
  have ne2: "form471_info \<noteq> []"
    and ft: "dict_get form471_info ''form_type'' = Some ''471''"
    and a: "dict_get form471_info ''application_number'' = Some ''251043327''"
    and b: "dict_get form471_info ''billed_entity_name'' = Some ''Unknown''"
    by (simp_all add: form471_info_def dict_get_def)
  have "fst (search_form470 (requests_get ?w) form471_info)
        = [(''found'', PBool False), (''search_number'', PStr ''123456789012345'')]"
    by code_simp
  then have nf: "\<not> pyval_truthy (map_of (fst (search_form470 (requests_get ?w) form471_info))
                                  ''found'')"
    by simp
  have ws: "project_workspace ?w = Returns (Some ''w1'')" and w1: "''w1'' \<noteq> []"
    and cr: "\<not> create_raises ?w s" for s
    by (simp_all add: pipeline_world_def world_of_def)
  note inst = not_found_outcome [OF pipeline_download ne ext ne2 ft nf,
      where t = "url_task ''1'' ''QA'' ''http://x/y.pdf''" and workspace_gid = "''w1''"
        and a = "''251043327''" and b = "''Unknown''" and task_name = "''Test''"
        and other = form471_info]
  note c1 = inst [THEN conjunct1]
  note c2 = inst [THEN conjunct2, THEN conjunct1]
  note c5 = inst [THEN conjunct2, THEN conjunct2, THEN conjunct2, THEN conjunct2, THEN conjunct1]
  note c6 = inst [THEN conjunct2, THEN conjunct2, THEN conjunct2, THEN conjunct2,
      THEN conjunct2, THEN conjunct1]
  have nm: "subtask_name form471_info = ''Manual Review: Find Form 470 for 251043327''"
    and nts: "sublist ''Form 471 Application Number: 251043327'' (subtask_notes form471_info)
     \<and> sublist ''Form Type: 471'' (subtask_notes form471_info)
     \<and> sublist ''Billed Entity: Unknown'' (subtask_notes form471_info)"
    using c6 [rule_format] a b by simp_all
  have "create_manual_review_subtask ?w ''1'' form471_info
        = (True, [CreateTask \<lparr>sub_name = subtask_name form471_info,
                               sub_notes = subtask_notes form471_info,
                               sub_parent = ''1'', sub_workspace = ''w1''\<rparr>])"
    using pipeline_task [of form471_doc 200 "[]"] ws w1 cr
    by (intro c5 [rule_format]) simp
  then have child: "snd (create_manual_review_subtask ?w ''1'' form471_info)
               = [CreateTask \<lparr>sub_name = ''Manual Review: Find Form 470 for 251043327'',
                               sub_notes = subtask_notes form471_info,
                               sub_parent = ''1'', sub_workspace = ''w1''\<rparr>]"
    by (simp only: nm snd_conv)
  have single: "process_single_task ?w Map.empty ''1'' ''Test''
   = (''MANUAL_FOLLOWUP'',
      [AddTask ''s2'' ''1'', AddTask ''s3'' ''1'',
       AddComment ''1'' (ManualFollowupComment ''Form 470 not found in USAC database''),
       CreateTask \<lparr>sub_name = ''Manual Review: Find Form 470 for 251043327'',
                   sub_notes = subtask_notes form471_info,
                   sub_parent = ''1'', sub_workspace = ''w1''\<rparr>],
      [''/tmp/agno_pdfs/1_y.pdf'' \<mapsto> form471_doc])"
    by (simp only: c1 pipeline_moves child append.simps)
  have direct: "process_qa_task ?w Map.empty ''1''
     = ([AddTask ''s2'' ''1'', AddTask ''s3'' ''1'',
         AddComment ''1'' (ManualFollowupComment ''Form 470 not found in USAC database''),
         CreateTask \<lparr>sub_name = ''Manual Review: Find Form 470 for 251043327'',
                     sub_notes = subtask_notes form471_info,
                     sub_parent = ''1'', sub_workspace = ''w1''\<rparr>],
        [''/tmp/agno_pdfs/1_y.pdf'' \<mapsto> form471_doc])"
    by (simp only: c2 pipeline_moves child append.simps)
  from single direct nts show ?thesis by (simp only: simp_thms)
qed

text \<open>
  C3 as stated fails where the search result carries an error and the record carries an
  establishing Form 470 number. The registry answers 500, so the result has the error
  \<open>API error: 500\<close>, and the reason of the follow-up is still \<open>Form 470 not found in
  USAC database\<close>; and the establishing number 123456789012345 of the record is neither
  in the name nor in the notes of the child task.
\<close>

theorem followup_reason_counterexample:
  "map_of (fst (search_form470 (requests_get (pipeline_world form471_doc 500 []))
                  (form_info_of_text form471_doc))) ''error''
     = Some (PStr ''API error: 500'')
   \<and> fst (snd (process_single_task (pipeline_world form471_doc 500 []) Map.empty ''1'' ''Test''))
     = [AddTask ''s2'' ''1'', AddTask ''s3'' ''1'',
        AddComment ''1'' (ManualFollowupComment ''Form 470 not found in USAC database''),
        CreateTask \<lparr>sub_name = ''Manual Review: Find Form 470 for 251043327'',
                    sub_notes = subtask_notes (form_info_of_text form471_doc),
                    sub_parent = ''1'', sub_workspace = ''w1''\<rparr>]
   \<and> fst (process_qa_task (pipeline_world form471_doc 500 []) Map.empty ''1'')
     = [AddTask ''s2'' ''1'', AddTask ''s3'' ''1'',
        AddComment ''1'' (ManualFollowupComment ''Form 470 not found in USAC database''),
        CreateTask \<lparr>sub_name = ''Manual Review: Find Form 470 for 251043327'',
                    sub_notes = subtask_notes (form_info_of_text form471_doc),
                    sub_parent = ''1'', sub_workspace = ''w1''\<rparr>]
   \<and> dict_get (form_info_of_text form471_doc) ''establishing_form470_number''
     = Some ''123456789012345''
   \<and> \<not> contains ''123456789012345'' (subtask_name (form_info_of_text form471_doc))
   \<and> \<not> contains ''123456789012345'' (subtask_notes (form_info_of_text form471_doc))"
proof -
  have "map_of (fst (search_form470 (requests_get (pipeline_world form471_doc 500 []))
                  (form_info_of_text form471_doc))) ''error''
     = Some (PStr ''API error: 500'')"
    and "fst (snd (process_single_task (pipeline_world form471_doc 500 []) Map.empty ''1'' ''Test''))
     = [AddTask ''s2'' ''1'', AddTask ''s3'' ''1'',
        AddComment ''1'' (ManualFollowupComment ''Form 470 not found in USAC database''),
        CreateTask \<lparr>sub_name = ''Manual Review: Find Form 470 for 251043327'',
                    sub_notes = subtask_notes (form_info_of_text form471_doc),
                    sub_parent = ''1'', sub_workspace = ''w1''\<rparr>]"
    and "fst (process_qa_task (pipeline_world form471_doc 500 []) Map.empty ''1'')
     = [AddTask ''s2'' ''1'', AddTask ''s3'' ''1'',
        AddComment ''1'' (ManualFollowupComment ''Form 470 not found in USAC database''),
        CreateTask \<lparr>sub_name = ''Manual Review: Find Form 470 for 251043327'',
                    sub_notes = subtask_notes (form_info_of_text form471_doc),
                    sub_parent = ''1'', sub_workspace = ''w1''\<rparr>]"
    and "dict_get (form_info_of_text form471_doc) ''establishing_form470_number''
     = Some ''123456789012345''"
    and "\<not> contains ''123456789012345'' (subtask_name (form_info_of_text form471_doc))"
    and "\<not> contains ''123456789012345'' (subtask_notes (form_info_of_text form471_doc))"
    by code_simp+
  then show ?thesis by (simp only: simp_thms)
qed

end
